theory Spec2Isabelle
  imports
    Main
    "HOL-Library.Char_ord"
    "HOL-Library.List_Lexorder"
    "HOL-Library.AList"
    "HOL-Library.Multiset"
begin

text \<open>
  The resolution of data file patterns of \<open>src/datasets/data_files.py\<close>. The functions
  keep the names of the source, without the leading underscore of the private ones.
\<close>

section \<open>Python strings\<close>

text \<open>
  A Python \<open>str\<close> is a \<^typ>\<open>string\<close>. Strings are compared as Python compares
  them, character by character (\<open>Char_ord\<close>, \<open>List_Lexorder\<close>); a list of strings is
  compared lexicographically too, as Python compares lists and tuples.
\<close>

definition startswith :: "string \<Rightarrow> string \<Rightarrow> bool" where
  "startswith s pre = (take (length pre) s = pre)"

definition endswith :: "string \<Rightarrow> string \<Rightarrow> bool" where
  "endswith s suf = (drop (length s - length suf) s = suf \<and> length suf \<le> length s)"

definition lstrip :: "char \<Rightarrow> string \<Rightarrow> string" where
  "lstrip c s = dropWhile (\<lambda>x. x = c) s"

text \<open>\<open>s.split(sep)\<close> for a one-character separator: at least one piece, empty pieces kept.\<close>

fun str_split :: "char \<Rightarrow> string \<Rightarrow> string list" where
  "str_split sep [] = [[]]"
| "str_split sep (x # xs) =
     (if x = sep then [] # str_split sep xs
      else (case str_split sep xs of
              [] \<Rightarrow> [[x]]
            | piece # pieces \<Rightarrow> (x # piece) # pieces))"

fun str_join :: "string \<Rightarrow> string list \<Rightarrow> string" where
  "str_join sep [] = []"
| "str_join sep [x] = x"
| "str_join sep (x # y # ys) = x @ sep @ str_join sep (y # ys)"

text \<open>
  \<open>s.replace(old, new)\<close>: occurrences are replaced from the left, they do not overlap,
  and the inserted text is not scanned again.
\<close>

fun str_replace :: "string \<Rightarrow> string \<Rightarrow> string \<Rightarrow> string" where
  "str_replace old new [] = []"
| "str_replace old new (c # s) =
     (if old \<noteq> [] \<and> take (length old) (c # s) = old
      then new @ str_replace old new (drop (length old) (c # s))
      else c # str_replace old new s)"

section \<open>Errors\<close>

text \<open>
  The messages of the source are f-strings. A message is kept as the list of its pieces:
  literal text and interpolated strings are \<open>Str\<close>, an interpolated list of strings (printed
  by Python's \<open>repr\<close>) is \<open>Repr\<close>, and the printed form of the resolver function object
  is \<open>Repr_resolver\<close>.
\<close>

datatype frag = Str string | Repr "string list" | Repr_resolver

datatype error =
    FileNotFoundError "frag list"
  | ValueError "frag list"
  | KeyError string
  | TypeError string
  | OSError string

section \<open>Paths (pathlib, POSIX flavour)\<close>

text \<open>
  A path is the list of its parts, as \<open>PurePosixPath.parts\<close> gives them: the root
  (\<open>/\<close> or \<open>//\<close>) is the first part of an absolute path, and no other part holds a
  separator, is empty or is a single dot. \<open>sorted\<close> on paths compares these lists.
\<close>

type_synonym path = "string list"

definition parse_parts :: "string \<Rightarrow> path" where
  "parse_parts s =
     (let keep = filter (\<lambda>x. x \<noteq> [] \<and> x \<noteq> ''.'') in
      if startswith s ''/'' \<and> s \<noteq> []
      then (let stripped = lstrip (CHR ''/'') s;
                root = (if length s - length stripped = 2 then ''//'' else ''/'')
            in root # keep (str_split (CHR ''/'') stripped))
      else keep (str_split (CHR ''/'') s))"

definition root_of :: "path \<Rightarrow> string" where
  "root_of p = (case p of [] \<Rightarrow> [] | x # _ \<Rightarrow> if startswith x ''/'' then x else [])"

definition name :: "path \<Rightarrow> string" where
  "name p = (if length p = (if root_of p \<noteq> [] then 1 else 0) then [] else last p)"

definition suffixes :: "path \<Rightarrow> string list" where
  "suffixes p =
     (let n = name p in
      if endswith n ''.'' then []
      else map (\<lambda>suffix. ''.'' @ suffix) (tl (str_split (CHR ''.'') (lstrip (CHR ''.'') n))))"

definition as_posix :: "path \<Rightarrow> string" where
  "as_posix p =
     (let s = (if root_of p \<noteq> [] then root_of p @ str_join ''/'' (tl p) else str_join ''/'' p)
      in if s = [] then ''.'' else s)"

text \<open>\<open>p.relative_to("/")\<close>: the parts after the root, when the root is a single slash.\<close>

definition relative_to_root :: "path \<Rightarrow> error + path" where
  "relative_to_root p =
     (if root_of p = ''/'' then Inr (tl p)
      else Inl (ValueError [Str (as_posix p), Str '' is not in the subpath of /'']))"

subsection \<open>fnmatch\<close>

text \<open>
  \<open>fnmatch.fnmatchcase(name, pat)\<close>: \<open>*\<close> matches any run of characters, \<open>?\<close> one
  character, \<open>[seq]\<close> one character of the set (single characters and ranges \<open>a-b\<close>),
  \<open>[!seq]\<close> one character outside it; a bracket that is never closed stands for itself.
\<close>

definition bracket_end :: "string \<Rightarrow> nat option" where
  "bracket_end r =
     (let j0 = (if r \<noteq> [] \<and> hd r = CHR ''!'' then 1 else 0);
          j1 = (if j0 < length r \<and> r ! j0 = CHR '']'' then j0 + 1 else j0);
          j2 = j1 + length (takeWhile (\<lambda>c. c \<noteq> CHR '']'') (drop j1 r))
      in if j2 \<ge> length r then None else Some j2)"

fun in_class :: "char \<Rightarrow> string \<Rightarrow> bool" where
  "in_class c [] = False"
| "in_class c [x] = (c = x)"
| "in_class c [x, y] = (c = x \<or> c = y)"
| "in_class c (lo # d # hi # rest) =
     (if d = CHR ''-'' then (lo \<le> c \<and> c \<le> hi) \<or> in_class c rest
      else c = lo \<or> in_class c (d # hi # rest))"

definition class_matches :: "string \<Rightarrow> char \<Rightarrow> bool" where
  "class_matches stuff c =
     (if stuff \<noteq> [] \<and> hd stuff = CHR ''!'' then \<not> in_class c (tl stuff) else in_class c stuff)"

fun fnmatchcase_chars :: "string \<Rightarrow> string \<Rightarrow> bool" where
  "fnmatchcase_chars [] s = (s = [])"
| "fnmatchcase_chars (c # p) [] = (c = CHR ''*'' \<and> fnmatchcase_chars p [])"
| "fnmatchcase_chars (c # p) (x # s) =
     (if c = CHR ''*'' then fnmatchcase_chars p (x # s) \<or> fnmatchcase_chars (c # p) s
      else if c = CHR ''?'' then fnmatchcase_chars p s
      else if c = CHR ''['' then
        (case bracket_end p of
           None \<Rightarrow> x = CHR ''['' \<and> fnmatchcase_chars p s
         | Some j \<Rightarrow> class_matches (take j p) x \<and> fnmatchcase_chars (drop (Suc j) p) s)
      else x = c \<and> fnmatchcase_chars p s)"

definition fnmatchcase :: "string \<Rightarrow> string \<Rightarrow> bool" where
  "fnmatchcase nm pat = fnmatchcase_chars pat nm"

subsection \<open>PurePath.match\<close>

text \<open>
  A relative pattern is matched from the right, part by part; an absolute pattern must
  have as many parts as the path. An empty pattern raises \<open>ValueError\<close>.
\<close>

definition path_match :: "path \<Rightarrow> string \<Rightarrow> error + bool" where
  "path_match p path_pattern =
     (let pat_parts = parse_parts path_pattern;
          root = root_of pat_parts;
          parts_match = (\<lambda>pats. list_all (\<lambda>(part, pat). fnmatchcase part pat) (zip (rev p) (rev pats)))
      in if pat_parts = [] then Inl (ValueError [Str ''empty pattern''])
         else if root \<noteq> [] \<and> root \<noteq> root_of p then Inr False
         else if root \<noteq> [] then
           (if length pat_parts \<noteq> length p then Inr False else Inr (parts_match (tl pat_parts)))
         else if length pat_parts > length p then Inr False
         else Inr (parts_match pat_parts))"

section \<open>Constants of \<open>data_files.py\<close>\<close>

text \<open>
  Modelled from the spec: \<open>Split.TRAIN\<close>, \<open>Split.TEST\<close> and \<open>Split.VALIDATION\<close> come
  from \<open>datasets.splits\<close>, which is not among the sources; the spec names the splits
  train, test and validation, and "train" as the default split.
\<close>

definition DEFAULT_SPLIT :: string where
  "DEFAULT_SPLIT = ''train''"

definition SPLIT_PATTERN_SHARDED :: string where
  "SPLIT_PATTERN_SHARDED =
     ''data/{split}-[0-9][0-9][0-9][0-9][0-9]-of-[0-9][0-9][0-9][0-9][0-9].*''"

definition DEFAULT_PATTERNS_SPLIT_IN_FILENAME :: "(string \<times> string list) list" where
  "DEFAULT_PATTERNS_SPLIT_IN_FILENAME =
     [(''train'', [''*train*'']),
      (''test'', [''*test*'', ''*eval*'']),
      (''validation'', [''*dev*'', ''*valid*''])]"

definition DEFAULT_PATTERNS_SPLIT_IN_DIR_NAME :: "(string \<times> string list) list" where
  "DEFAULT_PATTERNS_SPLIT_IN_DIR_NAME =
     [(''train'', [''*train*/*'', ''*train*/**/*'']),
      (''test'', [''*test*/*'', ''*test*/**/*'', ''*eval*/*'', ''*eval*/**/*'']),
      (''validation'', [''*dev*/*'', ''*dev*/**/*'', ''*valid*/*'', ''*valid*/**/*''])]"

definition DEFAULT_PATTERNS_ALL :: "(string \<times> string list) list" where
  "DEFAULT_PATTERNS_ALL = [(''train'', [''*''])]"

definition ALL_SPLIT_PATTERNS :: "string list" where
  "ALL_SPLIT_PATTERNS = [SPLIT_PATTERN_SHARDED]"

definition ALL_DEFAULT_PATTERNS :: "(string \<times> string list) list list" where
  "ALL_DEFAULT_PATTERNS =
     [DEFAULT_PATTERNS_SPLIT_IN_FILENAME, DEFAULT_PATTERNS_SPLIT_IN_DIR_NAME, DEFAULT_PATTERNS_ALL]"

definition WILDCARD_CHARACTERS :: string where
  "WILDCARD_CHARACTERS = ''*[]''"

definition FILES_TO_IGNORE :: "string list" where
  "FILES_TO_IGNORE =
     [''README.md'', ''config.json'', ''dataset_infos.json'', ''dummy_data.zip'', ''dataset_dict.json'']"

definition contains_wildcards :: "string \<Rightarrow> bool" where
  "contains_wildcards pattern =
     list_ex (\<lambda>wilcard_character. wilcard_character \<in> set pattern) WILDCARD_CHARACTERS"

section \<open>Resolving one pattern\<close>

text \<open>
  The extension filter, written twice in the source with the same words: a path is kept
  when one of its suffixes, without its dot, is an allowed extension. The message logged
  about the paths left out changes nothing and is not modelled.
\<close>

definition has_allowed_extension :: "string list \<Rightarrow> path \<Rightarrow> bool" where
  "has_allowed_extension allowed_extensions filepath =
     list_ex (\<lambda>suffix. drop 1 suffix \<in> set allowed_extensions) (suffixes filepath)"

definition filter_extensions :: "string list option \<Rightarrow> path list \<Rightarrow> path list" where
  "filter_extensions allowed_extensions matched_paths =
     (case allowed_extensions of
        Some exts \<Rightarrow> filter (has_allowed_extension exts) matched_paths
      | None \<Rightarrow> matched_paths)"

definition with_extensions :: "string list option \<Rightarrow> frag list" where
  "with_extensions allowed_extensions =
     (case allowed_extensions of
        Some exts \<Rightarrow> [Str '' with any supported extension '', Repr exts]
      | None \<Rightarrow> [])"

definition not_ignored :: "path \<Rightarrow> bool" where
  "not_ignored filepath =
     (name filepath \<notin> set FILES_TO_IGNORE \<and> \<not> startswith (name filepath) ''.'')"

subsection \<open>In a local directory\<close>

text \<open>
  What the file system and the helpers of \<open>datasets.utils.file_utils\<close> answer is a
  parameter: \<open>rglob base_path pattern\<close> is \<open>Path(base_path).rglob(pattern)\<close>, \<open>glob\<close> is
  \<open>glob.glob\<close>, \<open>resolve\<close> is \<open>Path.resolve\<close>, \<open>getmtime\<close> is the printed
  \<open>os.path.getmtime\<close> and \<open>cwd\<close> the printed \<open>Path().resolve()\<close>;
  \<open>is_relative_path\<close>, \<open>is_remote_url\<close> and \<open>request_etag\<close> are the functions of
  these names. The calls that only read the file system are taken not to raise.
\<close>

datatype auth_token = Token_flag bool | Token_str string

record env =
  rglob :: "string \<Rightarrow> string \<Rightarrow> path list"
  glob :: "string \<Rightarrow> string list"
  is_file :: "path \<Rightarrow> bool"
  resolve :: "path \<Rightarrow> path"
  cwd :: string
  is_relative_path :: "string \<Rightarrow> bool"
  is_remote_url :: "string \<Rightarrow> bool"
  getmtime :: "string \<Rightarrow> error + string"
  request_etag :: "string \<Rightarrow> auth_token option \<Rightarrow> error + string"

definition glob_iter :: "env \<Rightarrow> string \<Rightarrow> string \<Rightarrow> path list" where
  "glob_iter e base_path pattern =
     (if is_relative_path e pattern then rglob e base_path pattern
      else map parse_parts (glob e pattern))"

definition matched_paths_locally :: "env \<Rightarrow> string \<Rightarrow> string \<Rightarrow> path list" where
  "matched_paths_locally e base_path pattern =
     map (resolve e)
       (filter (\<lambda>filepath. not_ignored filepath \<and> is_file e filepath) (glob_iter e base_path pattern))"

definition resolve_single_pattern_locally ::
  "env \<Rightarrow> string \<Rightarrow> string \<Rightarrow> string list option \<Rightarrow> error + path list" where
  "resolve_single_pattern_locally e base_path pattern allowed_extensions =
     (let out = filter_extensions allowed_extensions (matched_paths_locally e base_path pattern) in
      if out = [] \<and> \<not> contains_wildcards pattern
      then Inl (FileNotFoundError
                 ([Str ''Unable to find '', Str [CHR 0x27], Str pattern, Str [CHR 0x27], Str '' at '',
                   Str (as_posix (resolve e (parse_parts base_path)))]
                  @ with_extensions allowed_extensions))
      else Inr (sort out))"

subsection \<open>In a dataset repository\<close>

record dataset_info =
  repo_id :: string
  sha :: string
  siblings :: "string list"

definition all_data_files :: "dataset_info \<Rightarrow> path list" where
  "all_data_files info = map (\<lambda>rfilename. parse_parts (''/'' @ rfilename)) (siblings info)"

text \<open>
  The comprehension over \<open>all_data_files\<close>: the first path on which \<open>match\<close> or
  \<open>relative_to\<close> raises ends it.
\<close>

fun matched_paths_in_repository :: "path list \<Rightarrow> string \<Rightarrow> error + path list" where
  "matched_paths_in_repository [] pattern = Inr []"
| "matched_paths_in_repository (filepath # rest) pattern =
     (if not_ignored filepath then
        (case path_match filepath pattern of
           Inl err \<Rightarrow> Inl err
         | Inr False \<Rightarrow> matched_paths_in_repository rest pattern
         | Inr True \<Rightarrow>
             (case relative_to_root filepath of
                Inl err \<Rightarrow> Inl err
              | Inr rel \<Rightarrow>
                  (case matched_paths_in_repository rest pattern of
                     Inl err \<Rightarrow> Inl err
                   | Inr others \<Rightarrow> Inr (rel # others))))
      else matched_paths_in_repository rest pattern)"

definition resolve_single_pattern_in_dataset_repository ::
  "dataset_info \<Rightarrow> string \<Rightarrow> string list option \<Rightarrow> error + path list" where
  "resolve_single_pattern_in_dataset_repository info pattern allowed_extensions =
     (case matched_paths_in_repository (all_data_files info) pattern of
        Inl err \<Rightarrow> Inl err
      | Inr matched_paths \<Rightarrow>
          (let out = filter_extensions allowed_extensions matched_paths in
           if out = [] \<and> \<not> contains_wildcards pattern
           then Inl (FileNotFoundError
                      ([Str ''Unable to find '', Str pattern, Str '' in dataset repository '',
                        Str (repo_id info)]
                       @ with_extensions allowed_extensions))
           else Inr (sort out)))"

section \<open>Resolving a list of patterns\<close>

datatype data_file = LocalPath path | Url string

fun collect_locally_or_by_urls ::
  "env \<Rightarrow> string \<Rightarrow> string list option \<Rightarrow> string list \<Rightarrow> data_file list \<Rightarrow> error + data_file list" where
  "collect_locally_or_by_urls e base_path allowed_extensions [] data_files = Inr data_files"
| "collect_locally_or_by_urls e base_path allowed_extensions (pattern # patterns) data_files =
     (if is_remote_url e pattern
      then collect_locally_or_by_urls e base_path allowed_extensions patterns (data_files @ [Url pattern])
      else
        (case resolve_single_pattern_locally e base_path pattern allowed_extensions of
           Inl err \<Rightarrow> Inl err
         | Inr paths \<Rightarrow>
             collect_locally_or_by_urls e base_path allowed_extensions patterns
               (data_files @ map LocalPath paths)))"

definition resolve_patterns_locally_or_by_urls ::
  "env \<Rightarrow> string \<Rightarrow> string list \<Rightarrow> string list option \<Rightarrow> error + data_file list" where
  "resolve_patterns_locally_or_by_urls e base_path patterns allowed_extensions =
     (case collect_locally_or_by_urls e base_path allowed_extensions patterns [] of
        Inl err \<Rightarrow> Inl err
      | Inr data_files \<Rightarrow>
          if data_files = []
          then Inl (FileNotFoundError
                     ([Str ''Unable to resolve any data file that matches '', Str [CHR 0x27],
                       Repr patterns, Str [CHR 0x27], Str '' at '',
                       Str (as_posix (resolve e (parse_parts base_path)))]
                      @ with_extensions allowed_extensions))
          else Inr data_files)"

text \<open>
  \<open>hf_hub_url\<close> (of \<open>datasets.utils.file_utils\<close>) builds the URL of a file from the
  repository id, the path and the revision; it is a parameter.
\<close>

type_synonym url_builder = "string \<Rightarrow> string \<Rightarrow> string \<Rightarrow> string"

fun collect_in_dataset_repository ::
  "url_builder \<Rightarrow> dataset_info \<Rightarrow> string list option \<Rightarrow> string list \<Rightarrow> data_file list
     \<Rightarrow> error + data_file list" where
  "collect_in_dataset_repository hf_hub_url info allowed_extensions [] data_files_urls =
     Inr data_files_urls"
| "collect_in_dataset_repository hf_hub_url info allowed_extensions (pattern # patterns) data_files_urls =
     (case resolve_single_pattern_in_dataset_repository info pattern allowed_extensions of
        Inl err \<Rightarrow> Inl err
      | Inr rel_paths \<Rightarrow>
          collect_in_dataset_repository hf_hub_url info allowed_extensions patterns
            (data_files_urls
             @ map (\<lambda>rel_path. Url (hf_hub_url (repo_id info) (as_posix rel_path) (sha info))) rel_paths))"

definition resolve_patterns_in_dataset_repository ::
  "url_builder \<Rightarrow> dataset_info \<Rightarrow> string list \<Rightarrow> string list option \<Rightarrow> error + data_file list" where
  "resolve_patterns_in_dataset_repository hf_hub_url info patterns allowed_extensions =
     (case collect_in_dataset_repository hf_hub_url info allowed_extensions patterns [] of
        Inl err \<Rightarrow> Inl err
      | Inr data_files_urls \<Rightarrow>
          if data_files_urls = []
          then Inl (FileNotFoundError
                     ([Str ''Unable to resolve any data file that matches '', Repr patterns,
                       Str '' in dataset repository '', Str (repo_id info)]
                      @ with_extensions allowed_extensions))
          else Inr data_files_urls)"

text \<open>
  What one pattern adds to the list in each of the two loops above, and the loops as the
  gathering of these blocks: the first pattern that raises ends the loop.
\<close>

definition block_locally_or_by_urls ::
  "env \<Rightarrow> string \<Rightarrow> string list option \<Rightarrow> string \<Rightarrow> error + data_file list" where
  "block_locally_or_by_urls e base_path allowed_extensions pattern =
     (if is_remote_url e pattern then Inr [Url pattern]
      else
        (case resolve_single_pattern_locally e base_path pattern allowed_extensions of
           Inl err \<Rightarrow> Inl err
         | Inr paths \<Rightarrow> Inr (map LocalPath paths)))"

definition block_in_dataset_repository ::
  "url_builder \<Rightarrow> dataset_info \<Rightarrow> string list option \<Rightarrow> string \<Rightarrow> error + data_file list" where
  "block_in_dataset_repository hf_hub_url info allowed_extensions pattern =
     (case resolve_single_pattern_in_dataset_repository info pattern allowed_extensions of
        Inl err \<Rightarrow> Inl err
      | Inr rel_paths \<Rightarrow>
          Inr (map (\<lambda>rel_path. Url (hf_hub_url (repo_id info) (as_posix rel_path) (sha info))) rel_paths))"

fun gather :: "('a \<Rightarrow> error + 'b) \<Rightarrow> 'a list \<Rightarrow> error + 'b list" where
  "gather f [] = Inr []"
| "gather f (x # xs) =
     (case f x of
        Inl err \<Rightarrow> Inl err
      | Inr y \<Rightarrow>
          (case gather f xs of
             Inl err \<Rightarrow> Inl err
           | Inr ys \<Rightarrow> Inr (y # ys)))"

section \<open>Inferring the splits\<close>

text \<open>
  \<open>pattern_resolver\<close> is a parameter of the source. \<open>string_to_dict\<close> (of
  \<open>datasets.utils.py_utils\<close>) is a parameter here: given a string and a template it
  returns the dictionary of the template's fields, or raises.
\<close>

type_synonym resolver = "string \<Rightarrow> error + path list"

type_synonym unformat = "string \<Rightarrow> string \<Rightarrow> error + (string \<times> string) list"

text \<open>
  \<open>split_pattern.format(split=split)\<close>: the template's only braces are those of the
  field \<open>{split}\<close>, so formatting puts the split name in its place; the name is not
  scanned again.
\<close>

definition format_split :: "string \<Rightarrow> string \<Rightarrow> string" where
  "format_split split_pattern split = str_replace ''{split}'' split split_pattern"

fun splits_of :: "unformat \<Rightarrow> string \<Rightarrow> string list \<Rightarrow> error + string list" where
  "splits_of string_to_dict split_pattern [] = Inr []"
| "splits_of string_to_dict split_pattern (p # ps) =
     (case string_to_dict p split_pattern of
        Inl err \<Rightarrow> Inl err
      | Inr d \<Rightarrow>
          (case map_of d ''split'' of
             None \<Rightarrow> Inl (KeyError ''split'')
           | Some split \<Rightarrow>
               (case splits_of string_to_dict split_pattern ps of
                  Inl err \<Rightarrow> Inl err
                | Inr splits \<Rightarrow> Inr (split # splits))))"

text \<open>
  The first loop. \<open>None\<close>: the loop ended without returning. The splits are a Python
  set: \<open>remdups\<close> keeps one of each, and the order of the keys of the dictionary returned
  is not specified by Python.
\<close>

fun try_split_patterns ::
  "unformat \<Rightarrow> resolver \<Rightarrow> string list \<Rightarrow> error + (string \<times> string list) list option" where
  "try_split_patterns string_to_dict pattern_resolver [] = Inr None"
| "try_split_patterns string_to_dict pattern_resolver (split_pattern # rest) =
     (let pattern = str_replace ''{split}'' ''*'' split_pattern in
      case pattern_resolver pattern of
        Inl err \<Rightarrow> Inl err
      | Inr data_files \<Rightarrow>
          if length data_files > 0 then
            (case splits_of string_to_dict split_pattern (map as_posix data_files) of
               Inl err \<Rightarrow> Inl err
             | Inr splits \<Rightarrow>
                 Inr (Some (map (\<lambda>split. (split, [format_split split_pattern split])) (remdups splits))))
          else try_split_patterns string_to_dict pattern_resolver rest)"

text \<open>The innermost loop, left by \<open>break\<close> at the first pattern with a data file.\<close>

fun any_pattern_resolves :: "resolver \<Rightarrow> string list \<Rightarrow> error + bool" where
  "any_pattern_resolves pattern_resolver [] = Inr False"
| "any_pattern_resolves pattern_resolver (pattern # patterns) =
     (case pattern_resolver pattern of
        Inl err \<Rightarrow> Inl err
      | Inr data_files \<Rightarrow>
          if length data_files > 0 then Inr True
          else any_pattern_resolves pattern_resolver patterns)"

text \<open>
  The loop over the splits of one dictionary: a \<open>FileNotFoundError\<close> ends the patterns of
  that split only, any other error ends the function.
\<close>

fun non_empty_splits :: "resolver \<Rightarrow> (string \<times> string list) list \<Rightarrow> error + string list" where
  "non_empty_splits pattern_resolver [] = Inr []"
| "non_empty_splits pattern_resolver ((split, patterns) # rest) =
     (case any_pattern_resolves pattern_resolver patterns of
        Inl (FileNotFoundError msg) \<Rightarrow> non_empty_splits pattern_resolver rest
      | Inl err \<Rightarrow> Inl err
      | Inr found \<Rightarrow>
          (case non_empty_splits pattern_resolver rest of
             Inl err \<Rightarrow> Inl err
           | Inr splits \<Rightarrow> Inr (if found then split # splits else splits)))"

text \<open>
  The loop over the dictionaries. The splits looked up in \<open>patterns_dict\<close> are keys of
  it, so the lookup finds them.
\<close>

fun try_default_patterns ::
  "resolver \<Rightarrow> (string \<times> string list) list list \<Rightarrow> error + (string \<times> string list) list option" where
  "try_default_patterns pattern_resolver [] = Inr None"
| "try_default_patterns pattern_resolver (patterns_dict # rest) =
     (case non_empty_splits pattern_resolver patterns_dict of
        Inl err \<Rightarrow> Inl err
      | Inr splits \<Rightarrow>
          if splits \<noteq> []
          then Inr (Some (map (\<lambda>split. (split, the (map_of patterns_dict split))) splits))
          else try_default_patterns pattern_resolver rest)"

text \<open>
  The loop variable \<open>pattern\<close> of the last message: every path to the last \<open>raise\<close> has
  gone through the last dictionary, whose only pattern was the last one assigned.
\<close>

definition last_pattern :: string where
  "last_pattern = last (snd (last (last ALL_DEFAULT_PATTERNS)))"

definition get_data_files_patterns ::
  "unformat \<Rightarrow> resolver \<Rightarrow> error + (string \<times> string list) list" where
  "get_data_files_patterns string_to_dict pattern_resolver =
     (case try_split_patterns string_to_dict pattern_resolver ALL_SPLIT_PATTERNS of
        Inl err \<Rightarrow> Inl err
      | Inr (Some d) \<Rightarrow> Inr d
      | Inr None \<Rightarrow>
          (case try_default_patterns pattern_resolver ALL_DEFAULT_PATTERNS of
             Inl err \<Rightarrow> Inl err
           | Inr (Some d) \<Rightarrow> Inr d
           | Inr None \<Rightarrow>
               Inl (FileNotFoundError
                     [Str ''Couldn't resolve pattern '', Str last_pattern,
                      Str '' with resolver '', Repr_resolver])))"

definition get_patterns_locally ::
  "unformat \<Rightarrow> env \<Rightarrow> string \<Rightarrow> error + (string \<times> string list) list" where
  "get_patterns_locally string_to_dict e base_path =
     (case get_data_files_patterns string_to_dict
             (\<lambda>pattern. resolve_single_pattern_locally e base_path pattern None) of
        Inl (FileNotFoundError msg) \<Rightarrow>
          Inl (FileNotFoundError
                [Str ''The directory at '', Str base_path, Str '' doesn't contain any data file''])
      | Inl err \<Rightarrow> Inl err
      | Inr d \<Rightarrow> Inr d)"

definition get_patterns_in_dataset_repository ::
  "unformat \<Rightarrow> dataset_info \<Rightarrow> error + (string \<times> string list) list" where
  "get_patterns_in_dataset_repository string_to_dict info =
     (case get_data_files_patterns string_to_dict
             (\<lambda>pattern. resolve_single_pattern_in_dataset_repository info pattern None) of
        Inl (FileNotFoundError msg) \<Rightarrow>
          Inl (FileNotFoundError
                [Str ''The dataset repository at '', Str [CHR 0x27], Str (repo_id info),
                 Str [CHR 0x27], Str '' doesn't contain any data file.''])
      | Inl err \<Rightarrow> Inl err
      | Inr d \<Rightarrow> Inr d)"

section \<open>Origin metadata and the lists of data files\<close>

definition get_single_origin_metadata_locally_or_by_urls ::
  "env \<Rightarrow> auth_token option \<Rightarrow> data_file \<Rightarrow> error + string list" where
  "get_single_origin_metadata_locally_or_by_urls e use_auth_token data_file =
     (case data_file of
        Url u \<Rightarrow>
          (case request_etag e u use_auth_token of
             Inl err \<Rightarrow> Inl err
           | Inr etag \<Rightarrow> Inr [etag])
      | LocalPath p \<Rightarrow>
          (case getmtime e (as_posix (resolve e p)) of
             Inl err \<Rightarrow> Inl err
           | Inr mtime \<Rightarrow> Inr [mtime]))"

text \<open>
  \<open>thread_map\<close> gives the results in the order of the inputs, and the first call (in
  that order) that raised ends it.
\<close>

fun thread_map :: "('a \<Rightarrow> error + 'b) \<Rightarrow> 'a list \<Rightarrow> error + 'b list" where
  "thread_map f [] = Inr []"
| "thread_map f (x # xs) =
     (case f x of
        Inl err \<Rightarrow> Inl err
      | Inr y \<Rightarrow>
          (case thread_map f xs of
             Inl err \<Rightarrow> Inl err
           | Inr ys \<Rightarrow> Inr (y # ys)))"

definition get_origin_metadata_locally_or_by_urls ::
  "env \<Rightarrow> data_file list \<Rightarrow> auth_token option \<Rightarrow> error + string list list" where
  "get_origin_metadata_locally_or_by_urls e data_files use_auth_token =
     thread_map (get_single_origin_metadata_locally_or_by_urls e use_auth_token) data_files"

record DataFilesList =
  data_files :: "data_file list"
  origin_metadata :: "string list list"

definition from_hf_repo ::
  "url_builder \<Rightarrow> string list \<Rightarrow> dataset_info \<Rightarrow> string list option \<Rightarrow> error + DataFilesList" where
  "from_hf_repo hf_hub_url patterns info allowed_extensions =
     (case resolve_patterns_in_dataset_repository hf_hub_url info patterns allowed_extensions of
        Inl err \<Rightarrow> Inl err
      | Inr files \<Rightarrow>
          Inr \<lparr>data_files = files,
               origin_metadata = map (\<lambda>_. [repo_id info, sha info]) patterns\<rparr>)"

definition from_local_or_remote ::
  "env \<Rightarrow> string list \<Rightarrow> string option \<Rightarrow> string list option \<Rightarrow> auth_token option
     \<Rightarrow> error + DataFilesList" where
  "from_local_or_remote e patterns base_path allowed_extensions use_auth_token =
     (let base = (case base_path of Some b \<Rightarrow> b | None \<Rightarrow> cwd e) in
      case resolve_patterns_locally_or_by_urls e base patterns allowed_extensions of
        Inl err \<Rightarrow> Inl err
      | Inr files \<Rightarrow>
          (case get_origin_metadata_locally_or_by_urls e files use_auth_token of
             Inl err \<Rightarrow> Inl err
           | Inr metadata \<Rightarrow> Inr \<lparr>data_files = files, origin_metadata = metadata\<rparr>))"

section \<open>The dictionary of data files\<close>

text \<open>
  A Python dictionary is the list of its items in insertion order, with distinct keys.
  \<open>dict(items)\<close> inserts the items one after the other; assigning to a key that is
  there keeps its place (\<open>AList.update\<close>).
\<close>

definition dict_of_items :: "('k \<times> 'v) list \<Rightarrow> ('k \<times> 'v) list" where
  "dict_of_items items = fold (\<lambda>(k, v) d. AList.update k v d) items []"

type_synonym DataFilesDict = "(string \<times> DataFilesList) list"

text \<open>
  \<open>__reduce__\<close> gives the class and \<open>dict(sorted(self.items()))\<close>; the keys of a
  dictionary differ, so \<open>sorted\<close> never compares two values.
\<close>

definition DataFilesDict_reduce :: "DataFilesDict \<Rightarrow> DataFilesDict" where
  "DataFilesDict_reduce self = dict_of_items (sort_key fst self)"

section \<open>Normalising the user's patterns\<close>

text \<open>
  The shapes \<open>sanitize_patterns\<close> tells apart with \<open>isinstance\<close>: a dictionary, a string,
  a list (of patterns, or a \<open>DataFilesList\<close>, which is a list), and anything else, which
  is handed to \<open>list\<close> and raises when it cannot be iterated. A value of the dictionary
  is a list or is not. The keys are printed by \<open>str\<close>, a parameter.
\<close>

datatype patterns_for_key = Patterns "string list" | Resolved DataFilesList

datatype dict_value = A_list patterns_for_key | Not_a_list string

datatype 'k patterns_arg =
    Dict_arg "('k \<times> dict_value) list"
  | Str_arg string
  | List_arg patterns_for_key
  | Iterable_arg "string list"
  | Not_iterable_arg

definition as_list :: "dict_value \<Rightarrow> patterns_for_key" where
  "as_list v = (case v of A_list l \<Rightarrow> l | Not_a_list x \<Rightarrow> Patterns [x])"

definition sanitize_patterns ::
  "('k \<Rightarrow> string) \<Rightarrow> 'k patterns_arg \<Rightarrow> error + (string \<times> patterns_for_key) list" where
  "sanitize_patterns str patterns =
     (case patterns of
        Dict_arg items \<Rightarrow> Inr (dict_of_items (map (\<lambda>(key, v). (str key, as_list v)) items))
      | Str_arg s \<Rightarrow> Inr [(DEFAULT_SPLIT, Patterns [s])]
      | List_arg l \<Rightarrow> Inr [(DEFAULT_SPLIT, l)]
      | Iterable_arg xs \<Rightarrow> Inr [(DEFAULT_SPLIT, Patterns xs)]
      | Not_iterable_arg \<Rightarrow> Inl (TypeError ''object is not iterable''))"

section \<open>Helpers that are not among the sources\<close>

text \<open>
  Modelled from the spec: \<open>hf_hub_url\<close> (of \<open>datasets.utils.file_utils\<close>) is not among
  the sources. The spec gives it as a pure function of the repository id, the relative
  path and the revision; the docstring of \<open>resolve_patterns_in_dataset_repository\<close> shows
  the URLs it builds.
\<close>

definition hf_hub_url_spec :: url_builder where
  "hf_hub_url_spec path nm revision =
     ''https://huggingface.co/datasets/'' @ path @ ''/resolve/'' @ revision @ ''/'' @ nm"

fun split_at :: "string \<Rightarrow> string \<Rightarrow> (string \<times> string) option" where
  "split_at sub [] = (if sub = [] then Some ([], []) else None)"
| "split_at sub (c # s) =
     (if take (length sub) (c # s) = sub then Some ([], drop (length sub) (c # s))
      else map_option (\<lambda>(prefix_text, rest). (c # prefix_text, rest)) (split_at sub s))"

text \<open>
  Modelled from the spec: \<open>string_to_dict\<close> (of \<open>datasets.utils.py_utils\<close>) is not among
  the sources. The spec: the split name is recovered "by reversing the template against
  the matched string", for the absolute paths of the local resolver and the relative
  paths of a repository alike. The string is searched from the left for a place where
  the template fits: the template's text before \<open>{split}\<close>, then a split name of at
  least one character, none of them a line break, and right after the name the
  template's text after \<open>{split}\<close>, in which \<open>[0-9]\<close> is a digit and the final \<open>.*\<close>
  any rest, empty or not. At the first such place the longest name that fits is taken;
  a string in which the template fits nowhere raises \<open>ValueError\<close>.
\<close>

definition tail_pattern :: "string \<Rightarrow> string" where
  "tail_pattern suffix_text =
     (if endswith suffix_text ''.*'' then take (length suffix_text - 2) suffix_text else suffix_text)
     @ ''*''"

definition field_at :: "string \<Rightarrow> string \<Rightarrow> string \<Rightarrow> string option" where
  "field_at prefix_text suffix_text t =
     (if startswith t prefix_text then
        (let rest = drop (length prefix_text) t in
         map_option (\<lambda>k. take k rest)
           (find (\<lambda>k. CHR 0x0A \<notin> set (take k rest)
                       \<and> fnmatchcase (drop k rest) (tail_pattern suffix_text))
              (rev [1..<Suc (length rest)])))
      else None)"

fun search_field :: "string \<Rightarrow> string \<Rightarrow> string \<Rightarrow> string option" where
  "search_field prefix_text suffix_text [] = field_at prefix_text suffix_text []"
| "search_field prefix_text suffix_text (c # t) =
     (case field_at prefix_text suffix_text (c # t) of
        Some split \<Rightarrow> Some split
      | None \<Rightarrow> search_field prefix_text suffix_text t)"

definition string_to_dict_spec :: unformat where
  "string_to_dict_spec s pattern =
     (case split_at ''{split}'' pattern of
        None \<Rightarrow> Inr []
      | Some (prefix_text, suffix_text) \<Rightarrow>
          (case search_field prefix_text suffix_text s of
             None \<Rightarrow>
               Inl (ValueError [Str ''String '', Str s, Str '' doesn't match the pattern '', Str pattern])
           | Some split \<Rightarrow> Inr [(''split'', split)]))"

section \<open>What the specification says, for comparison\<close>

text \<open>
  The specification's extension filter: "keep only files whose final suffix (after
  stripping the leading dot) is in the allow-list". The final suffix is \<open>PurePath.suffix\<close>:
  the name from its last dot on, when that dot is neither first nor last.
\<close>

definition final_suffix_spec :: "path \<Rightarrow> string" where
  "final_suffix_spec p =
     (let n = name p; k = length (takeWhile (\<lambda>c. c \<noteq> CHR ''.'') (rev n)) in
      if CHR ''.'' \<in> set n \<and> 0 < k \<and> Suc k < length n then drop (length n - Suc k) n else [])"

definition final_suffix_allowed_spec :: "string list \<Rightarrow> path \<Rightarrow> bool" where
  "final_suffix_allowed_spec allowed_extensions p = (drop 1 (final_suffix_spec p) \<in> set allowed_extensions)"

text \<open>
  The specification's strategies: a strategy (a dictionary of default patterns) yields
  the splits for which one of the patterns has a data file, with their patterns; the
  first strategy whose yield is not empty wins. \<open>files_of\<close> gives the data files of a
  pattern.
\<close>

definition strategy_result_spec ::
  "(string \<Rightarrow> path list) \<Rightarrow> (string \<times> string list) list \<Rightarrow> (string \<times> string list) list" where
  "strategy_result_spec files_of patterns_dict =
     filter (\<lambda>(split, patterns). list_ex (\<lambda>pattern. files_of pattern \<noteq> []) patterns) patterns_dict"

definition first_strategy_spec ::
  "(string \<Rightarrow> path list) \<Rightarrow> (string \<times> string list) list list \<Rightarrow> (string \<times> string list) list option" where
  "first_strategy_spec files_of strategies =
     find (\<lambda>d. d \<noteq> []) (map (strategy_result_spec files_of) strategies)"

text \<open>Every pattern the inference of splits may hand to the resolver.\<close>

definition candidate_patterns :: "string list" where
  "candidate_patterns =
     map (str_replace ''{split}'' ''*'') ALL_SPLIT_PATTERNS
     @ concat (map (\<lambda>patterns_dict. concat (map snd patterns_dict)) ALL_DEFAULT_PATTERNS)"

section \<open>File sets to run the definitions on\<close>

text \<open>
  A directory tree given by the absolute paths of its regular files, without links:
  \<open>rglob\<close> gives the files below the base path whose last parts match the pattern,
  in the order of the listing.
\<close>

definition listing_env :: "string list \<Rightarrow> env" where
  "listing_env files =
     \<lparr>rglob = (\<lambda>base_path pattern.
         filter (\<lambda>p. take (length (parse_parts base_path)) p = parse_parts base_path
                     \<and> path_match (drop (length (parse_parts base_path)) p) pattern = Inr True)
           (map parse_parts files)),
      glob = (\<lambda>pattern. filter (\<lambda>f. path_match (parse_parts f) pattern = Inr True) files),
      is_file = (\<lambda>p. as_posix p \<in> set files),
      resolve = (\<lambda>p. p),
      cwd = ''/'',
      is_relative_path = (\<lambda>s. \<not> startswith s ''/'' \<and> \<not> startswith s ''http''),
      is_remote_url = (\<lambda>s. startswith s ''http://'' \<or> startswith s ''https://''),
      getmtime = (\<lambda>f. if f \<in> set files then Inr ''1600000000.0'' else Inl (OSError f)),
      request_etag = (\<lambda>u t. Inr ''etag'')\<rparr>"

definition repo_of :: "string list \<Rightarrow> dataset_info" where
  "repo_of files = \<lparr>repo_id = ''user/demo'', sha = ''0ca0d9f'', siblings = files\<rparr>"

section \<open>The empty result of one pattern\<close>

lemma contains_wildcards_iff:
  "contains_wildcards pattern \<longleftrightarrow>
     CHR ''*'' \<in> set pattern \<or> CHR ''['' \<in> set pattern \<or> CHR '']'' \<in> set pattern"
  by (simp add: contains_wildcards_def WILDCARD_CHARACTERS_def)

text \<open>
  Claim C4. When nothing is left of the matches of a pattern after the ignore list, the
  dot files and the extensions have been filtered out, the resolver of one pattern (in a
  local directory and in a dataset repository) returns the empty list if the pattern
  holds one of the characters \<open>*\<close>, \<open>[\<close>, \<open>]\<close>, and raises \<open>FileNotFoundError\<close> if it
  holds none.
\<close>

theorem C4_empty_result_policy:
  "(filter_extensions allowed_extensions (matched_paths_locally e base_path pattern) = [] \<longrightarrow>
      (if CHR ''*'' \<in> set pattern \<or> CHR ''['' \<in> set pattern \<or> CHR '']'' \<in> set pattern
       then resolve_single_pattern_locally e base_path pattern allowed_extensions = Inr []
       else \<exists>msg. resolve_single_pattern_locally e base_path pattern allowed_extensions
                    = Inl (FileNotFoundError msg)))
   \<and> (matched_paths_in_repository (all_data_files info) pattern = Inr matched_paths
        \<and> filter_extensions allowed_extensions matched_paths = [] \<longrightarrow>
      (if CHR ''*'' \<in> set pattern \<or> CHR ''['' \<in> set pattern \<or> CHR '']'' \<in> set pattern
       then resolve_single_pattern_in_dataset_repository info pattern allowed_extensions = Inr []
       else \<exists>msg. resolve_single_pattern_in_dataset_repository info pattern allowed_extensions
                    = Inl (FileNotFoundError msg)))"
  by (simp add: resolve_single_pattern_locally_def resolve_single_pattern_in_dataset_repository_def
      contains_wildcards_iff)

text \<open>
  A directory whose three files are all filtered out (an ignored name, a dot file, an
  extension that is not allowed), and a repository without files.
\<close>

theorem C4_empty_result_policy_witness:
  "resolve_single_pattern_locally (listing_env [''/ds/README.md'', ''/ds/.gitignore'', ''/ds/notes.txt''])
      ''/ds'' ''*'' (Some [''csv'']) = Inr []
   \<and> (\<exists>msg. resolve_single_pattern_locally
               (listing_env [''/ds/README.md'', ''/ds/.gitignore'', ''/ds/notes.txt''])
               ''/ds'' ''notes.txt'' (Some [''csv'']) = Inl (FileNotFoundError msg))
   \<and> resolve_single_pattern_in_dataset_repository (repo_of []) ''*.csv'' None = Inr []
   \<and> (\<exists>msg. resolve_single_pattern_in_dataset_repository (repo_of []) ''missing.csv'' None
               = Inl (FileNotFoundError msg))"
proof -
  let ?e = "listing_env [''/ds/README.md'', ''/ds/.gitignore'', ''/ds/notes.txt'']"
  have l1: "filter_extensions (Some [''csv'']) (matched_paths_locally ?e ''/ds'' ''*'') = []"
    by code_simp
  have l2: "filter_extensions (Some [''csv'']) (matched_paths_locally ?e ''/ds'' ''notes.txt'') = []"
    by code_simp
  have r1: "matched_paths_in_repository (all_data_files (repo_of [])) ''*.csv'' = Inr []
            \<and> filter_extensions None [] = []"
    by code_simp
  have r2: "matched_paths_in_repository (all_data_files (repo_of [])) ''missing.csv'' = Inr []
            \<and> filter_extensions None [] = []"
    by code_simp
  show ?thesis
    using C4_empty_result_policy [where e = ?e and base_path = "''/ds''" and pattern = "''*''"
            and allowed_extensions = "Some [''csv'']"] l1
          C4_empty_result_policy [where e = ?e and base_path = "''/ds''" and pattern = "''notes.txt''"
            and allowed_extensions = "Some [''csv'']"] l2
          C4_empty_result_policy [where info = "repo_of []" and pattern = "''*.csv''"
            and allowed_extensions = None and matched_paths = "[]"] r1
          C4_empty_result_policy [where info = "repo_of []" and pattern = "''missing.csv''"
            and allowed_extensions = None and matched_paths = "[]"] r2
    by simp
qed

section \<open>The loops over the patterns\<close>

lemma gather_Inr_iff:
  "gather f xs = Inr ys \<longleftrightarrow> map f xs = map Inr ys"
proof (induction xs arbitrary: ys)
  case Nil
  then show ?case by auto
next
  case (Cons x xs)
  show ?case
  proof (cases "f x")
    case (Inl err)
    then show ?thesis by (cases ys) auto
  next
    case (Inr y)
    show ?thesis
    proof (cases "gather f xs")
      case (Inl err)
      with Inr Cons.IH show ?thesis by (cases ys) auto
    next
      case r: (Inr zs)
      with Inr Cons.IH [of zs] Cons.IH show ?thesis by (cases ys) auto
    qed
  qed
qed

lemma gather_append:
  "gather f (xs @ ys) =
     (case gather f xs of
        Inl err \<Rightarrow> Inl err
      | Inr as \<Rightarrow> (case gather f ys of Inl err \<Rightarrow> Inl err | Inr bs \<Rightarrow> Inr (as @ bs)))"
  by (induction xs) (auto split: sum.splits)

lemma collect_locally_gather:
  "collect_locally_or_by_urls e base_path allowed_extensions patterns acc =
     (case gather (block_locally_or_by_urls e base_path allowed_extensions) patterns of
        Inl err \<Rightarrow> Inl err
      | Inr blocks \<Rightarrow> Inr (acc @ concat blocks))"
  by (induction patterns arbitrary: acc)
     (auto simp: block_locally_or_by_urls_def split: sum.splits)

lemma collect_in_repository_gather:
  "collect_in_dataset_repository hf_hub_url info allowed_extensions patterns acc =
     (case gather (block_in_dataset_repository hf_hub_url info allowed_extensions) patterns of
        Inl err \<Rightarrow> Inl err
      | Inr blocks \<Rightarrow> Inr (acc @ concat blocks))"
  by (induction patterns arbitrary: acc)
     (auto simp: block_in_dataset_repository_def split: sum.splits)

lemma gather_permuted:
  assumes "mset xs' = mset xs" and "gather f xs = Inr ys"
  shows "\<exists>ys'. gather f xs' = Inr ys' \<and> mset (concat ys') = mset (concat ys)"
proof -
  define g where "g x = (case f x of Inl err \<Rightarrow> [] | Inr y \<Rightarrow> y)" for x
  from assms(2) have m: "map f xs = map Inr ys" by (simp add: gather_Inr_iff)
  have all: "f x = Inr (g x)" if "x \<in> set xs" for x
  proof -
    from that m have "f x \<in> set (map Inr ys)" by (metis image_eqI set_map)
    then show ?thesis by (auto simp: g_def)
  qed
  have ys: "ys = map g xs"
  proof -
    have "map Inr ys = map (\<lambda>x. Inr (g x) :: error + 'b list) xs"
      using m all by (metis (no_types, lifting) map_eq_conv)
    then have "map Inr ys = map (Inr :: 'b list \<Rightarrow> error + 'b list) (map g xs)" by simp
    then show ?thesis by (rule map_injective) simp
  qed
  have set_eq: "set xs' = set xs" using assms(1) by (metis set_mset_mset)
  have "map f xs' = map Inr (map g xs')"
    using all set_eq by simp
  then have g': "gather f xs' = Inr (map g xs')" by (simp add: gather_Inr_iff)
  have "mset (concat (map g xs')) = mset (concat (map g xs))"
    using assms(1) by (simp add: mset_concat flip: sum_mset_sum_list)
  with g' ys show ?thesis by simp
qed

lemma resolve_single_locally_sorted:
  "resolve_single_pattern_locally e base_path pattern allowed_extensions = Inr paths \<Longrightarrow> sorted paths"
  by (auto simp: resolve_single_pattern_locally_def Let_def split: if_splits)

lemma resolve_single_in_repository_sorted:
  "resolve_single_pattern_in_dataset_repository info pattern allowed_extensions = Inr paths
     \<Longrightarrow> sorted paths"
  by (auto simp: resolve_single_pattern_in_dataset_repository_def Let_def split: if_splits sum.splits)

lemma resolve_locally_gather:
  "resolve_patterns_locally_or_by_urls e base_path patterns allowed_extensions = Inr out \<longleftrightarrow>
     (\<exists>blocks. gather (block_locally_or_by_urls e base_path allowed_extensions) patterns = Inr blocks
        \<and> out = concat blocks \<and> out \<noteq> [])"
  by (auto simp: resolve_patterns_locally_or_by_urls_def collect_locally_gather split: sum.splits)

lemma resolve_in_repository_gather:
  "resolve_patterns_in_dataset_repository hf_hub_url info patterns allowed_extensions = Inr out \<longleftrightarrow>
     (\<exists>blocks. gather (block_in_dataset_repository hf_hub_url info allowed_extensions) patterns = Inr blocks
        \<and> out = concat blocks \<and> out \<noteq> [])"
  by (auto simp: resolve_patterns_in_dataset_repository_def collect_in_repository_gather split: sum.splits)

lemma blocks_of_gather:
  assumes "gather (\<lambda>p. case r p of Inl err \<Rightarrow> Inl err | Inr paths \<Rightarrow> Inr (map h paths)) ps = Inr bl"
  shows "\<exists>blocks. map r ps = map Inr blocks \<and> bl = map (map h) blocks"
  using assms
proof (induction ps arbitrary: bl)
  case Nil
  then show ?case by simp
next
  case (Cons p ps)
  from Cons.prems obtain paths bl' where
    p: "r p = Inr paths" and
    g: "gather (\<lambda>p. case r p of Inl err \<Rightarrow> Inl err | Inr paths \<Rightarrow> Inr (map h paths)) ps = Inr bl'" and
    bl: "bl = map h paths # bl'"
    by (auto split: sum.splits)
  from Cons.IH [OF g] obtain blocks where "map r ps = map Inr blocks" "bl' = map (map h) blocks"
    by blast
  with p bl have "map r (p # ps) = map Inr (paths # blocks) \<and> bl = map (map h) (paths # blocks)"
    by simp
  then show ?case by blast
qed

lemma sorted_blocks:
  assumes "map r ps = map Inr blocks" and "\<And>p paths. r p = Inr paths \<Longrightarrow> sorted paths"
  shows "list_all sorted blocks"
proof -
  have "sorted b" if "b \<in> set blocks" for b
  proof -
    from that have "Inr b \<in> set (map r ps)" using assms(1) by simp
    then obtain p where "r p = Inr b" by auto
    then show ?thesis by (rule assms(2))
  qed
  then show ?thesis by (simp add: list_all_iff)
qed

text \<open>
  Claim C3, as amended. When a list of patterns without URLs is resolved (in a local
  directory, or in a dataset repository), the output is the concatenation, in the order
  of the patterns, of the matches of each pattern, and the matches of each single
  pattern are sorted; the output as a whole is not sorted again. Resolving a permutation
  of the patterns succeeds too and gives the same entries with the same multiplicities,
  in the order of the permuted patterns.
\<close>

theorem C3_blocks_in_pattern_order:
  "(list_all (\<lambda>pattern. \<not> is_remote_url e pattern) patterns
      \<and> resolve_patterns_locally_or_by_urls e base_path patterns allowed_extensions = Inr out \<longrightarrow>
      (\<exists>blocks. map (\<lambda>pattern. resolve_single_pattern_locally e base_path pattern allowed_extensions) patterns
                  = map Inr blocks
          \<and> list_all sorted blocks
          \<and> out = concat (map (map LocalPath) blocks))
      \<and> (\<forall>patterns'. mset patterns' = mset patterns \<longrightarrow>
            (\<exists>out'. resolve_patterns_locally_or_by_urls e base_path patterns' allowed_extensions = Inr out'
               \<and> mset out' = mset out)))
   \<and> (resolve_patterns_in_dataset_repository hf_hub_url info patterns allowed_extensions = Inr urls \<longrightarrow>
      (\<exists>blocks. map (\<lambda>pattern. resolve_single_pattern_in_dataset_repository info pattern allowed_extensions) patterns
                  = map Inr blocks
          \<and> list_all sorted blocks
          \<and> urls = concat (map (map (\<lambda>rel_path. Url (hf_hub_url (repo_id info) (as_posix rel_path) (sha info))))
                             blocks))
      \<and> (\<forall>patterns'. mset patterns' = mset patterns \<longrightarrow>
            (\<exists>urls'. resolve_patterns_in_dataset_repository hf_hub_url info patterns' allowed_extensions = Inr urls'
               \<and> mset urls' = mset urls)))"
proof (intro conjI impI)
  assume a: "list_all (\<lambda>pattern. \<not> is_remote_url e pattern) patterns
      \<and> resolve_patterns_locally_or_by_urls e base_path patterns allowed_extensions = Inr out"
  then obtain bl where
    g: "gather (block_locally_or_by_urls e base_path allowed_extensions) patterns = Inr bl" and
    out: "out = concat bl" and ne: "out \<noteq> []"
    by (auto simp: resolve_locally_gather)
  let ?r = "\<lambda>pattern. resolve_single_pattern_locally e base_path pattern allowed_extensions"
  have "map (block_locally_or_by_urls e base_path allowed_extensions) patterns
        = map (\<lambda>p. case ?r p of Inl err \<Rightarrow> Inl err | Inr paths \<Rightarrow> Inr (map LocalPath paths)) patterns"
    using a by (auto simp: block_locally_or_by_urls_def list_all_iff)
  with g have "gather (\<lambda>p. case ?r p of Inl err \<Rightarrow> Inl err | Inr paths \<Rightarrow> Inr (map LocalPath paths)) patterns
       = Inr bl"
    by (simp add: gather_Inr_iff)
  from blocks_of_gather [OF this] obtain blocks where
    b: "map ?r patterns = map Inr blocks" "bl = map (map LocalPath) blocks" by blast
  have "list_all sorted blocks"
    using b(1) by (rule sorted_blocks) (rule resolve_single_locally_sorted)
  with b out show "\<exists>blocks. map ?r patterns = map Inr blocks \<and> list_all sorted blocks
          \<and> out = concat (map (map LocalPath) blocks)"
    by blast
  show "\<forall>patterns'. mset patterns' = mset patterns \<longrightarrow>
            (\<exists>out'. resolve_patterns_locally_or_by_urls e base_path patterns' allowed_extensions = Inr out'
               \<and> mset out' = mset out)"
  proof (intro allI impI)
    fix patterns' :: "string list"
    assume "mset patterns' = mset patterns"
    from gather_permuted [OF this g] obtain bl' where
      g': "gather (block_locally_or_by_urls e base_path allowed_extensions) patterns' = Inr bl'" and
      m: "mset (concat bl') = mset (concat bl)"
      by blast
    from m out ne have "concat bl' \<noteq> []" by (metis mset_zero_iff)
    with g' m out show "\<exists>out'. resolve_patterns_locally_or_by_urls e base_path patterns' allowed_extensions = Inr out'
               \<and> mset out' = mset out"
      by (auto simp: resolve_locally_gather)
  qed
next
  assume a: "resolve_patterns_in_dataset_repository hf_hub_url info patterns allowed_extensions = Inr urls"
  then obtain bl where
    g: "gather (block_in_dataset_repository hf_hub_url info allowed_extensions) patterns = Inr bl" and
    out: "urls = concat bl" and ne: "urls \<noteq> []"
    by (auto simp: resolve_in_repository_gather)
  let ?r = "\<lambda>pattern. resolve_single_pattern_in_dataset_repository info pattern allowed_extensions"
  let ?u = "\<lambda>rel_path. Url (hf_hub_url (repo_id info) (as_posix rel_path) (sha info))"
  have "block_in_dataset_repository hf_hub_url info allowed_extensions
        = (\<lambda>p. case ?r p of Inl err \<Rightarrow> Inl err | Inr paths \<Rightarrow> Inr (map ?u paths))"
    by (rule ext) (simp add: block_in_dataset_repository_def)
  with g have "gather (\<lambda>p. case ?r p of Inl err \<Rightarrow> Inl err | Inr paths \<Rightarrow> Inr (map ?u paths)) patterns
       = Inr bl"
    by simp
  from blocks_of_gather [OF this] obtain blocks where
    b: "map ?r patterns = map Inr blocks" "bl = map (map ?u) blocks" by blast
  have "list_all sorted blocks"
    using b(1) by (rule sorted_blocks) (rule resolve_single_in_repository_sorted)
  with b out show "\<exists>blocks. map ?r patterns = map Inr blocks \<and> list_all sorted blocks
          \<and> urls = concat (map (map ?u) blocks)"
    by blast
  show "\<forall>patterns'. mset patterns' = mset patterns \<longrightarrow>
            (\<exists>urls'. resolve_patterns_in_dataset_repository hf_hub_url info patterns' allowed_extensions = Inr urls'
               \<and> mset urls' = mset urls)"
  proof (intro allI impI)
    fix patterns' :: "string list"
    assume "mset patterns' = mset patterns"
    from gather_permuted [OF this g] obtain bl' where
      g': "gather (block_in_dataset_repository hf_hub_url info allowed_extensions) patterns' = Inr bl'" and
      m: "mset (concat bl') = mset (concat bl)"
      by blast
    from m out ne have "concat bl' \<noteq> []" by (metis mset_zero_iff)
    with g' m out show "\<exists>urls'. resolve_patterns_in_dataset_repository hf_hub_url info patterns' allowed_extensions = Inr urls'
               \<and> mset urls' = mset urls"
      by (auto simp: resolve_in_repository_gather)
  qed
qed

text \<open>
  Claim C3 as stated fails: with the files \<open>a.csv\<close> and \<open>b.csv\<close>, the patterns
  \<open>b*\<close>, \<open>a*\<close> give \<open>b.csv\<close> before \<open>a.csv\<close>, which is not sorted, and the
  patterns in the other order give the other list.
\<close>

theorem C3_sorted_as_a_whole_counterexample:
  "resolve_patterns_locally_or_by_urls (listing_env [''/ds/a.csv'', ''/ds/b.csv'']) ''/ds'' [''b*'', ''a*''] None
     = Inr [LocalPath [''/'', ''ds'', ''b.csv''], LocalPath [''/'', ''ds'', ''a.csv'']]
   \<and> \<not> sorted [[''/'', ''ds'', ''b.csv''], [''/'', ''ds'', ''a.csv'']]
   \<and> resolve_patterns_locally_or_by_urls (listing_env [''/ds/a.csv'', ''/ds/b.csv'']) ''/ds'' [''a*'', ''b*''] None
     = Inr [LocalPath [''/'', ''ds'', ''a.csv''], LocalPath [''/'', ''ds'', ''b.csv'']]
   \<and> resolve_patterns_in_dataset_repository hf_hub_url_spec (repo_of [''a.csv'', ''b.csv'']) [''b*'', ''a*''] None
     = Inr [Url ''https://huggingface.co/datasets/user/demo/resolve/0ca0d9f/b.csv'',
            Url ''https://huggingface.co/datasets/user/demo/resolve/0ca0d9f/a.csv'']
   \<and> \<not> sorted [''https://huggingface.co/datasets/user/demo/resolve/0ca0d9f/b.csv'',
                 ''https://huggingface.co/datasets/user/demo/resolve/0ca0d9f/a.csv'']
   \<and> resolve_patterns_in_dataset_repository hf_hub_url_spec (repo_of [''a.csv'', ''b.csv'']) [''a*'', ''b*''] None
     = Inr [Url ''https://huggingface.co/datasets/user/demo/resolve/0ca0d9f/a.csv'',
            Url ''https://huggingface.co/datasets/user/demo/resolve/0ca0d9f/b.csv'']"
  by code_simp

text \<open>The two files and the two patterns of the counterexample, in both orders.\<close>

theorem C3_blocks_in_pattern_order_witness:
  "(\<exists>blocks. map (\<lambda>pattern. resolve_single_pattern_locally (listing_env [''/ds/a.csv'', ''/ds/b.csv''])
                                  ''/ds'' pattern None) [''b*'', ''a*'']
                = map Inr blocks
        \<and> list_all sorted blocks
        \<and> [LocalPath [''/'', ''ds'', ''b.csv''], LocalPath [''/'', ''ds'', ''a.csv'']]
            = concat (map (map LocalPath) blocks))
   \<and> (\<exists>out'. resolve_patterns_locally_or_by_urls (listing_env [''/ds/a.csv'', ''/ds/b.csv''])
                 ''/ds'' [''a*'', ''b*''] None = Inr out'
        \<and> mset out' = mset [LocalPath [''/'', ''ds'', ''b.csv''], LocalPath [''/'', ''ds'', ''a.csv'']])
   \<and> (\<exists>urls'. resolve_patterns_in_dataset_repository hf_hub_url_spec (repo_of [''a.csv'', ''b.csv''])
                  [''a*'', ''b*''] None = Inr urls'
        \<and> mset urls' = mset [Url ''https://huggingface.co/datasets/user/demo/resolve/0ca0d9f/b.csv'',
                              Url ''https://huggingface.co/datasets/user/demo/resolve/0ca0d9f/a.csv''])"
proof -
  let ?e = "listing_env [''/ds/a.csv'', ''/ds/b.csv'']"
  have l: "list_all (\<lambda>pattern. \<not> is_remote_url ?e pattern) [''b*'', ''a*'']
      \<and> resolve_patterns_locally_or_by_urls ?e ''/ds'' [''b*'', ''a*''] None
          = Inr [LocalPath [''/'', ''ds'', ''b.csv''], LocalPath [''/'', ''ds'', ''a.csv'']]"
    by code_simp
  have r: "resolve_patterns_in_dataset_repository hf_hub_url_spec (repo_of [''a.csv'', ''b.csv''])
             [''b*'', ''a*''] None
           = Inr [Url ''https://huggingface.co/datasets/user/demo/resolve/0ca0d9f/b.csv'',
                  Url ''https://huggingface.co/datasets/user/demo/resolve/0ca0d9f/a.csv'']"
    by code_simp
  have p: "mset [''a*'', ''b*''] = mset [''b*'', ''a*'']"
    by simp
  note t = C3_blocks_in_pattern_order [where e = ?e and base_path = "''/ds''"
      and patterns = "[''b*'', ''a*'']" and allowed_extensions = None
      and out = "[LocalPath [''/'', ''ds'', ''b.csv''], LocalPath [''/'', ''ds'', ''a.csv'']]"
      and hf_hub_url = hf_hub_url_spec and info = "repo_of [''a.csv'', ''b.csv'']"
      and urls = "[Url ''https://huggingface.co/datasets/user/demo/resolve/0ca0d9f/b.csv'',
                   Url ''https://huggingface.co/datasets/user/demo/resolve/0ca0d9f/a.csv'']"]
  from t l r p show ?thesis by blast
qed

section \<open>Patterns that are URLs\<close>

lemma collect_locally_append:
  "collect_locally_or_by_urls e base_path allowed_extensions (xs @ ys) acc =
     (case collect_locally_or_by_urls e base_path allowed_extensions xs acc of
        Inl err \<Rightarrow> Inl err
      | Inr files \<Rightarrow> collect_locally_or_by_urls e base_path allowed_extensions ys files)"
  by (induction xs arbitrary: acc) (auto split: sum.splits)

lemma collect_locally_acc:
  "collect_locally_or_by_urls e base_path allowed_extensions patterns acc =
     (case collect_locally_or_by_urls e base_path allowed_extensions patterns [] of
        Inl err \<Rightarrow> Inl err
      | Inr files \<Rightarrow> Inr (acc @ files))"
  by (simp add: collect_locally_gather split: sum.splits)

text \<open>
  Claim C10. A pattern that is a remote URL is put into the list as it is, as one \<open>Url\<close>
  entry at the place of the pattern: alone it resolves to that single entry, and in a
  list it stands between what the patterns before it and the patterns after it resolve
  to. Nothing of the file system, of the ignore list or of the allowed extensions is
  looked at for it, and it raises nothing.
\<close>

theorem C10_url_pattern_verbatim:
  assumes "is_remote_url e pattern"
  shows "resolve_patterns_locally_or_by_urls e base_path [pattern] allowed_extensions = Inr [Url pattern]
     \<and> resolve_patterns_locally_or_by_urls e base_path (before_it @ pattern # after_it) allowed_extensions =
         (case collect_locally_or_by_urls e base_path allowed_extensions before_it [] of
            Inl err \<Rightarrow> Inl err
          | Inr xs \<Rightarrow>
              (case collect_locally_or_by_urls e base_path allowed_extensions after_it [] of
                 Inl err \<Rightarrow> Inl err
               | Inr ys \<Rightarrow> Inr (xs @ Url pattern # ys)))"
proof
  show "resolve_patterns_locally_or_by_urls e base_path [pattern] allowed_extensions = Inr [Url pattern]"
    using assms by (simp add: resolve_patterns_locally_or_by_urls_def)
  have step: "collect_locally_or_by_urls e base_path allowed_extensions (pattern # after_it) xs =
        (case collect_locally_or_by_urls e base_path allowed_extensions after_it [] of
           Inl err \<Rightarrow> Inl err
         | Inr ys \<Rightarrow> Inr (xs @ Url pattern # ys))" for xs
    using assms
    by (simp add: collect_locally_acc [of e base_path allowed_extensions after_it "xs @ [Url pattern]"]
          split: sum.splits)
  have whole: "collect_locally_or_by_urls e base_path allowed_extensions (before_it @ pattern # after_it) [] =
        (case collect_locally_or_by_urls e base_path allowed_extensions before_it [] of
           Inl err \<Rightarrow> Inl err
         | Inr xs \<Rightarrow>
             (case collect_locally_or_by_urls e base_path allowed_extensions after_it [] of
                Inl err \<Rightarrow> Inl err
              | Inr ys \<Rightarrow> Inr (xs @ Url pattern # ys)))"
    by (simp only: collect_locally_append step)
  show "resolve_patterns_locally_or_by_urls e base_path (before_it @ pattern # after_it) allowed_extensions =
         (case collect_locally_or_by_urls e base_path allowed_extensions before_it [] of
            Inl err \<Rightarrow> Inl err
          | Inr xs \<Rightarrow>
              (case collect_locally_or_by_urls e base_path allowed_extensions after_it [] of
                 Inl err \<Rightarrow> Inl err
               | Inr ys \<Rightarrow> Inr (xs @ Url pattern # ys)))"
    unfolding resolve_patterns_locally_or_by_urls_def whole
    by (simp split: sum.splits)
qed

text \<open>
  A URL whose last part is an ignored name below a dot directory, with an extension that
  is not allowed and no wildcard: alone, and between two local patterns.
\<close>

theorem C10_url_pattern_verbatim_witness:
  "resolve_patterns_locally_or_by_urls (listing_env [''/ds/a.csv'']) ''/ds''
      [''https://example.org/.hidden/README.md''] (Some [''csv''])
     = Inr [Url ''https://example.org/.hidden/README.md'']
   \<and> resolve_patterns_locally_or_by_urls (listing_env [''/ds/a.csv'']) ''/ds''
      [''*.csv'', ''https://example.org/.hidden/README.md'', ''a.csv''] (Some [''csv''])
     = Inr [LocalPath [''/'', ''ds'', ''a.csv''], Url ''https://example.org/.hidden/README.md'',
            LocalPath [''/'', ''ds'', ''a.csv'']]"
proof -
  let ?e = "listing_env [''/ds/a.csv'']"
  have u: "is_remote_url ?e ''https://example.org/.hidden/README.md''"
    by code_simp
  have b: "collect_locally_or_by_urls ?e ''/ds'' (Some [''csv'']) [''*.csv''] []
            = Inr [LocalPath [''/'', ''ds'', ''a.csv'']]"
    by code_simp
  have a: "collect_locally_or_by_urls ?e ''/ds'' (Some [''csv'']) [''a.csv''] []
            = Inr [LocalPath [''/'', ''ds'', ''a.csv'']]"
    by code_simp
  from C10_url_pattern_verbatim [OF u, of "''/ds''" "Some [''csv'']" "[''*.csv'']" "[''a.csv'']"] a b
  show ?thesis by simp
qed

section \<open>The inference of splits\<close>

lemma sharded_glob:
  "str_replace ''{split}'' ''*'' SPLIT_PATTERN_SHARDED
     = ''data/*-[0-9][0-9][0-9][0-9][0-9]-of-[0-9][0-9][0-9][0-9][0-9].*''"
  by code_simp


lemma candidate_patterns_eq:
  "candidate_patterns =
     [''data/*-[0-9][0-9][0-9][0-9][0-9]-of-[0-9][0-9][0-9][0-9][0-9].*'',
      ''*train*'', ''*test*'', ''*eval*'', ''*dev*'', ''*valid*'',
      ''*train*/*'', ''*train*/**/*'', ''*test*/*'', ''*test*/**/*'',
      ''*eval*/*'', ''*eval*/**/*'', ''*dev*/*'', ''*dev*/**/*'', ''*valid*/*'',
      ''*valid*/**/*'', ''*'']"
  by code_simp

lemma any_pattern_resolves_total:
  "list_all (\<lambda>p. r p = Inr (f p)) ps \<Longrightarrow> any_pattern_resolves r ps = Inr (list_ex (\<lambda>p. f p \<noteq> []) ps)"
  by (induction ps) auto

lemma non_empty_splits_total:
  "list_all (\<lambda>(split, ps). list_all (\<lambda>p. r p = Inr (f p)) ps) d
     \<Longrightarrow> non_empty_splits r d = Inr (map fst (strategy_result_spec f d))"
  by (induction d) (auto simp: any_pattern_resolves_total strategy_result_spec_def)

lemma restrict_dict:
  "distinct (map fst d) \<Longrightarrow>
     map (\<lambda>split. (split, the (map_of d split))) (map fst (filter P d)) = filter P d"
proof -
  assume dist: "distinct (map fst d)"
  have "(\<lambda>split. (split, the (map_of d split))) (fst kv) = kv" if "kv \<in> set d" for kv
  proof -
    obtain k v where kv: "kv = (k, v)" by (cases kv)
    with that dist have "map_of d k = Some v" by simp
    with kv show ?thesis by simp
  qed
  then have "map ((\<lambda>split. (split, the (map_of d split))) \<circ> fst) (filter P d) = map (\<lambda>kv. kv) (filter P d)"
    by (intro map_cong) auto
  then show ?thesis by simp
qed

lemma try_default_patterns_total:
  "list_all (\<lambda>d. distinct (map fst d) \<and> list_all (\<lambda>(split, ps). list_all (\<lambda>p. r p = Inr (f p)) ps) d) ds
     \<Longrightarrow> try_default_patterns r ds = Inr (first_strategy_spec f ds)"
proof (induction ds)
  case Nil
  then show ?case by (simp add: first_strategy_spec_def)
next
  case (Cons d ds)
  then have n: "non_empty_splits r d = Inr (map fst (strategy_result_spec f d))"
    and dist: "distinct (map fst d)"
    and ih: "try_default_patterns r ds = Inr (first_strategy_spec f ds)"
    by (simp_all add: non_empty_splits_total)
  have "map (\<lambda>split. (split, the (map_of d split))) (map fst (strategy_result_spec f d))
          = strategy_result_spec f d"
    unfolding strategy_result_spec_def using dist by (rule restrict_dict)
  with n ih show ?case
    by (simp add: first_strategy_spec_def)
qed

lemma default_patterns_resolved:
  assumes "list_all (\<lambda>p. r p = Inr (f p)) candidate_patterns"
  shows "list_all (\<lambda>d. distinct (map fst d) \<and> list_all (\<lambda>(split, ps). list_all (\<lambda>p. r p = Inr (f p)) ps) d)
           ALL_DEFAULT_PATTERNS"
  using assms
  by (simp add: candidate_patterns_eq ALL_DEFAULT_PATTERNS_def DEFAULT_PATTERNS_SPLIT_IN_FILENAME_def
        DEFAULT_PATTERNS_SPLIT_IN_DIR_NAME_def DEFAULT_PATTERNS_ALL_def)

lemma last_pattern_eq: "last_pattern = ''*''"
  by (simp add: last_pattern_def ALL_DEFAULT_PATTERNS_def DEFAULT_PATTERNS_ALL_def)

lemma get_data_files_patterns_total:
  assumes "list_all (\<lambda>p. r p = Inr (f p)) candidate_patterns"
  shows "get_data_files_patterns std r =
     (if f ''data/*-[0-9][0-9][0-9][0-9][0-9]-of-[0-9][0-9][0-9][0-9][0-9].*'' \<noteq> [] then
        (case splits_of std SPLIT_PATTERN_SHARDED
                (map as_posix (f ''data/*-[0-9][0-9][0-9][0-9][0-9]-of-[0-9][0-9][0-9][0-9][0-9].*'')) of
           Inl err \<Rightarrow> Inl err
         | Inr splits \<Rightarrow>
             Inr (map (\<lambda>split. (split, [format_split SPLIT_PATTERN_SHARDED split])) (remdups splits)))
      else
        (case first_strategy_spec f ALL_DEFAULT_PATTERNS of
           Some d \<Rightarrow> Inr d
         | None \<Rightarrow>
             Inl (FileNotFoundError
                   [Str ''Couldn't resolve pattern '', Str ''*'', Str '' with resolver '', Repr_resolver])))"
proof -
  from assms have s: "r ''data/*-[0-9][0-9][0-9][0-9][0-9]-of-[0-9][0-9][0-9][0-9][0-9].*''
      = Inr (f ''data/*-[0-9][0-9][0-9][0-9][0-9]-of-[0-9][0-9][0-9][0-9][0-9].*'')"
    by (simp add: candidate_patterns_eq)
  have d: "try_default_patterns r ALL_DEFAULT_PATTERNS = Inr (first_strategy_spec f ALL_DEFAULT_PATTERNS)"
    by (rule try_default_patterns_total) (rule default_patterns_resolved [OF assms])
  show ?thesis
    by (simp add: get_data_files_patterns_def ALL_SPLIT_PATTERNS_def sharded_glob s d last_pattern_eq
          split: sum.splits option.splits)
qed


text \<open>
  Every candidate pattern holds a wildcard, so the local resolver answers each of them
  with the sorted list of its matches and never raises.
\<close>

lemma candidate_patterns_wildcards:
  "list_all contains_wildcards candidate_patterns"
  by code_simp

lemma local_resolver_answers_candidates:
  "\<forall>pattern\<in>set candidate_patterns.
     resolve_single_pattern_locally e base_path pattern None
       = Inr (sort (matched_paths_locally e base_path pattern))"
  using candidate_patterns_wildcards
  by (simp add: list_all_iff resolve_single_pattern_locally_def filter_extensions_def)

text \<open>
  Claim C5. For a resolver that answers every pattern the inference may try, the
  inference returns the result of the first strategy, in the order sharded template,
  file names, directory names, catch-all, that has a data file: the splits of the sharded
  template if it matches a file; otherwise the splits of the file-name patterns that have
  a file, if there are any; otherwise those of the directory-name patterns; otherwise
  those of the catch-all pattern; and it raises if none has a file. A strategy after the
  first one with a result adds nothing.
\<close>

theorem C5_first_strategy_wins:
  assumes "\<forall>pattern\<in>set candidate_patterns. pattern_resolver pattern = Inr (files_of pattern)"
  shows "get_data_files_patterns string_to_dict pattern_resolver =
     (if files_of ''data/*-[0-9][0-9][0-9][0-9][0-9]-of-[0-9][0-9][0-9][0-9][0-9].*'' \<noteq> [] then
        (case splits_of string_to_dict SPLIT_PATTERN_SHARDED
                (map as_posix (files_of ''data/*-[0-9][0-9][0-9][0-9][0-9]-of-[0-9][0-9][0-9][0-9][0-9].*'')) of
           Inl err \<Rightarrow> Inl err
         | Inr splits \<Rightarrow>
             Inr (map (\<lambda>split. (split, [format_split SPLIT_PATTERN_SHARDED split])) (remdups splits)))
      else if strategy_result_spec files_of DEFAULT_PATTERNS_SPLIT_IN_FILENAME \<noteq> [] then
        Inr (strategy_result_spec files_of DEFAULT_PATTERNS_SPLIT_IN_FILENAME)
      else if strategy_result_spec files_of DEFAULT_PATTERNS_SPLIT_IN_DIR_NAME \<noteq> [] then
        Inr (strategy_result_spec files_of DEFAULT_PATTERNS_SPLIT_IN_DIR_NAME)
      else if strategy_result_spec files_of DEFAULT_PATTERNS_ALL \<noteq> [] then
        Inr (strategy_result_spec files_of DEFAULT_PATTERNS_ALL)
      else
        Inl (FileNotFoundError
              [Str ''Couldn't resolve pattern '', Str ''*'', Str '' with resolver '', Repr_resolver]))"
proof -
  from assms have "list_all (\<lambda>p. pattern_resolver p = Inr (files_of p)) candidate_patterns"
    by (simp add: list_all_iff)
  then show ?thesis
    by (simp add: get_data_files_patterns_total first_strategy_spec_def ALL_DEFAULT_PATTERNS_def)
qed

text \<open>
  The files \<open>train.csv\<close> and \<open>test.csv\<close>: the file-name strategy gives the splits train
  and test, though the catch-all strategy has files too.
\<close>

theorem C5_first_strategy_wins_witness:
  "get_data_files_patterns string_to_dict_spec
      (\<lambda>pattern. resolve_single_pattern_in_dataset_repository (repo_of [''train.csv'', ''test.csv'']) pattern None)
     = Inr [(''train'', [''*train*'']), (''test'', [''*test*'', ''*eval*''])]
   \<and> get_patterns_in_dataset_repository string_to_dict_spec (repo_of [''train.csv'', ''test.csv''])
     = Inr [(''train'', [''*train*'']), (''test'', [''*test*'', ''*eval*''])]
   \<and> strategy_result_spec
        (\<lambda>pattern. case resolve_single_pattern_in_dataset_repository (repo_of [''train.csv'', ''test.csv''])
                           pattern None of Inl err \<Rightarrow> [] | Inr files \<Rightarrow> files)
        DEFAULT_PATTERNS_SPLIT_IN_DIR_NAME = []
   \<and> strategy_result_spec
        (\<lambda>pattern. case resolve_single_pattern_in_dataset_repository (repo_of [''train.csv'', ''test.csv''])
                           pattern None of Inl err \<Rightarrow> [] | Inr files \<Rightarrow> files)
        DEFAULT_PATTERNS_ALL = DEFAULT_PATTERNS_ALL"
proof -
  let ?r = "\<lambda>pattern. resolve_single_pattern_in_dataset_repository (repo_of [''train.csv'', ''test.csv''])
                pattern None"
  let ?f = "\<lambda>pattern. case ?r pattern of Inl err \<Rightarrow> [] | Inr files \<Rightarrow> files"
  have "list_all (\<lambda>pattern. ?r pattern = Inr (?f pattern)) candidate_patterns"
    by code_simp
  then have h: "\<forall>pattern\<in>set candidate_patterns. ?r pattern = Inr (?f pattern)"
    by (simp add: list_all_iff)
  have s: "?f ''data/*-[0-9][0-9][0-9][0-9][0-9]-of-[0-9][0-9][0-9][0-9][0-9].*'' = []"
    by code_simp
  have n: "strategy_result_spec ?f DEFAULT_PATTERNS_SPLIT_IN_FILENAME
            = [(''train'', [''*train*'']), (''test'', [''*test*'', ''*eval*''])]"
    by code_simp
  have d: "strategy_result_spec ?f DEFAULT_PATTERNS_SPLIT_IN_DIR_NAME = []"
    by code_simp
  have a: "strategy_result_spec ?f DEFAULT_PATTERNS_ALL = DEFAULT_PATTERNS_ALL"
    by code_simp
  have g: "get_data_files_patterns string_to_dict_spec ?r
            = Inr [(''train'', [''*train*'']), (''test'', [''*test*'', ''*eval*''])]"
    using C5_first_strategy_wins [OF h, of string_to_dict_spec] by (simp only: s n) simp
  from g d a show ?thesis
    by (simp add: get_patterns_in_dataset_repository_def)
qed

text \<open>
  Claim C9. When the resolver finds no file for any of the patterns of the strategies,
  the catch-all included, \<open>get_patterns_locally\<close> raises \<open>FileNotFoundError\<close> with a
  message that holds the base path, and \<open>get_patterns_in_dataset_repository\<close> one with
  a message that holds the id of the repository.
\<close>

theorem C9_no_data_files_found:
  "((\<forall>pattern\<in>set candidate_patterns.
        resolve_single_pattern_locally e base_path pattern None = Inr []) \<longrightarrow>
      get_patterns_locally string_to_dict e base_path
        = Inl (FileNotFoundError
                [Str ''The directory at '', Str base_path, Str '' doesn't contain any data file'']))
   \<and> ((\<forall>pattern\<in>set candidate_patterns.
        resolve_single_pattern_in_dataset_repository info pattern None = Inr []) \<longrightarrow>
      get_patterns_in_dataset_repository string_to_dict info
        = Inl (FileNotFoundError
                [Str ''The dataset repository at '', Str [CHR 0x27], Str (repo_id info), Str [CHR 0x27],
                 Str '' doesn't contain any data file.'']))"
proof -
  have none: "first_strategy_spec (\<lambda>p. []) ALL_DEFAULT_PATTERNS = None"
    by (simp add: first_strategy_spec_def strategy_result_spec_def ALL_DEFAULT_PATTERNS_def
          DEFAULT_PATTERNS_SPLIT_IN_FILENAME_def DEFAULT_PATTERNS_SPLIT_IN_DIR_NAME_def
          DEFAULT_PATTERNS_ALL_def)
  have fails: "\<exists>msg. get_data_files_patterns string_to_dict r = Inl (FileNotFoundError msg)"
    if "\<forall>pattern\<in>set candidate_patterns. r pattern = Inr []" for r
  proof -
    from that have "list_all (\<lambda>p. r p = Inr ((\<lambda>p. []) p)) candidate_patterns"
      by (simp add: list_all_iff)
    from get_data_files_patterns_total [OF this] none show ?thesis by simp
  qed
  show ?thesis
  proof (intro conjI impI)
    assume "\<forall>pattern\<in>set candidate_patterns.
        resolve_single_pattern_locally e base_path pattern None = Inr []"
    from fails [OF this] show "get_patterns_locally string_to_dict e base_path
        = Inl (FileNotFoundError
                [Str ''The directory at '', Str base_path, Str '' doesn't contain any data file''])"
      by (auto simp: get_patterns_locally_def)
  next
    assume "\<forall>pattern\<in>set candidate_patterns.
        resolve_single_pattern_in_dataset_repository info pattern None = Inr []"
    from fails [OF this] show "get_patterns_in_dataset_repository string_to_dict info
        = Inl (FileNotFoundError
                [Str ''The dataset repository at '', Str [CHR 0x27], Str (repo_id info), Str [CHR 0x27],
                 Str '' doesn't contain any data file.''])"
      by (auto simp: get_patterns_in_dataset_repository_def)
  qed
qed

text \<open>A directory with an ignored file and a dot file only, and a repository without files.\<close>

theorem C9_no_data_files_found_witness:
  "get_patterns_locally string_to_dict_spec (listing_env [''/ds/README.md'', ''/ds/.gitignore'']) ''/ds''
     = Inl (FileNotFoundError
             [Str ''The directory at '', Str ''/ds'', Str '' doesn't contain any data file''])
   \<and> get_patterns_in_dataset_repository string_to_dict_spec (repo_of [])
     = Inl (FileNotFoundError
             [Str ''The dataset repository at '', Str [CHR 0x27], Str ''user/demo'', Str [CHR 0x27],
              Str '' doesn't contain any data file.''])"
proof -
  let ?e = "listing_env [''/ds/README.md'', ''/ds/.gitignore'']"
  have "list_all (\<lambda>pattern. resolve_single_pattern_locally ?e ''/ds'' pattern None = Inr [])
          candidate_patterns"
    by code_simp
  then have l: "\<forall>pattern\<in>set candidate_patterns.
      resolve_single_pattern_locally ?e ''/ds'' pattern None = Inr []"
    by (simp add: list_all_iff)
  have "list_all (\<lambda>pattern. resolve_single_pattern_in_dataset_repository (repo_of []) pattern None = Inr [])
          candidate_patterns"
    by code_simp
  then have r: "\<forall>pattern\<in>set candidate_patterns.
      resolve_single_pattern_in_dataset_repository (repo_of []) pattern None = Inr []"
    by (simp add: list_all_iff)
  have i: "repo_id (repo_of []) = ''user/demo''"
    by (simp add: repo_of_def)
  from C9_no_data_files_found [where e = ?e and base_path = "''/ds''" and info = "repo_of []"
         and string_to_dict = string_to_dict_spec] l r i
  show ?thesis by simp
qed




section \<open>The reduction of the dictionary of data files\<close>

lemma update_fresh_key:
  "k \<notin> fst ` set al \<Longrightarrow> AList.update k v al = al @ [(k, v)]"
  by (induction al) auto

lemma fold_update_distinct:
  "distinct (map fst (acc @ xs)) \<Longrightarrow> fold (\<lambda>(k, v) d. AList.update k v d) xs acc = acc @ xs"
proof (induction xs arbitrary: acc)
  case Nil
  then show ?case by simp
next
  case (Cons x xs)
  obtain k v where x: "x = (k, v)" by (cases x)
  from Cons.prems x have fresh: "k \<notin> fst ` set acc" by auto
  from Cons.prems x have "distinct (map fst ((acc @ [(k, v)]) @ xs))" by simp
  from Cons.IH [OF this] fresh x show ?case by (simp add: update_fresh_key)
qed

lemma dict_of_items_distinct:
  "distinct (map fst items) \<Longrightarrow> dict_of_items items = items"
  using fold_update_distinct [of "[]" items] by (simp add: dict_of_items_def)

lemma fold_update_map_of:
  "map_of (fold (\<lambda>(k, v) d. AList.update k v d) xs acc) = map_of acc ++ map_of (rev xs)"
proof (induction xs arbitrary: acc)
  case Nil
  then show ?case by simp
next
  case (Cons x xs)
  obtain k v where x: "x = (k, v)" by (cases x)
  show ?case
    by (simp add: Cons.IH x update_conv' fun_eq_iff map_add_def split: option.splits)
qed

lemma fold_update_keys:
  "distinct (map fst acc) \<Longrightarrow>
     distinct (map fst (fold (\<lambda>(k, v) d. AList.update k v d) xs acc))
     \<and> set (map fst (fold (\<lambda>(k, v) d. AList.update k v d) xs acc)) = fst ` set acc \<union> fst ` set xs"
proof (induction xs arbitrary: acc)
  case Nil
  then show ?case by simp
next
  case (Cons x xs)
  obtain k v where x: "x = (k, v)" by (cases x)
  from Cons.prems have "distinct (map fst (AList.update k v acc))"
    by (simp add: distinct_update)
  from Cons.IH [OF this] x show ?case
    by (simp add: dom_update)
qed

lemma dict_of_items_keys:
  "distinct (map fst (dict_of_items items)) \<and> set (map fst (dict_of_items items)) = fst ` set items"
  using fold_update_keys [of "[]" items] by (simp add: dict_of_items_def)

lemma dict_of_items_map_of:
  "map_of (dict_of_items items) = map_of (rev items)"
  by (simp add: dict_of_items_def fold_update_map_of)

text \<open>
  Claim C7. Two dictionaries of data files with the same items, whatever the order in
  which their keys were inserted, have the same reduction, and so the same value of any
  function of the reduction (\<open>content_hash\<close>: the hash is computed from it).
\<close>

theorem C7_reduce_key_order:
  assumes "distinct (map fst d1)" and "distinct (map fst d2)" and "set d1 = set d2"
  shows "DataFilesDict_reduce d1 = DataFilesDict_reduce d2
         \<and> content_hash (DataFilesDict_reduce d1) = content_hash (DataFilesDict_reduce d2)"
proof -
  have r: "DataFilesDict_reduce d = sort_key fst d" if "distinct (map fst d)" for d
  proof -
    from that have "distinct (map fst (sort_key fst d))"
      by (metis distinct_map distinct_sort set_sort)
    then show ?thesis by (simp add: DataFilesDict_reduce_def dict_of_items_distinct)
  qed
  have inj: "inj_on fst (set d1)"
    using assms(1) by (simp add: distinct_map)
  have "sort_key fst d1 = sort_key fst d2"
  proof (rule map_sorted_distinct_set_unique [where f = fst])
    show "inj_on fst (set (sort_key fst d1) \<union> set (sort_key fst d2))"
      using inj assms(3) by simp
    show "sorted (map fst (sort_key fst d1))" and "sorted (map fst (sort_key fst d2))"
      by simp_all
    show "distinct (map fst (sort_key fst d1))"
      using assms(1) by (metis distinct_map distinct_sort set_sort)
    show "distinct (map fst (sort_key fst d2))"
      using assms(2) by (metis distinct_map distinct_sort set_sort)
    show "set (sort_key fst d1) = set (sort_key fst d2)"
      using assms(3) by simp
  qed
  with r [OF assms(1)] r [OF assms(2)] show ?thesis by simp
qed

text \<open>The keys \<open>a\<close> and \<open>b\<close> of the docstring, inserted in both orders.\<close>

theorem C7_reduce_key_order_witness:
  "DataFilesDict_reduce
       [(''a'', \<lparr>data_files = [Url ''https://x.org/t.csv''], origin_metadata = [[''etag'']]\<rparr>),
        (''b'', \<lparr>data_files = [], origin_metadata = []\<rparr>)]
     = DataFilesDict_reduce
       [(''b'', \<lparr>data_files = [], origin_metadata = []\<rparr>),
        (''a'', \<lparr>data_files = [Url ''https://x.org/t.csv''], origin_metadata = [[''etag'']]\<rparr>)]
   \<and> length (DataFilesDict_reduce
       [(''b'', \<lparr>data_files = [], origin_metadata = []\<rparr>),
        (''a'', \<lparr>data_files = [Url ''https://x.org/t.csv''], origin_metadata = [[''etag'']]\<rparr>)])
     = length (DataFilesDict_reduce
       [(''a'', \<lparr>data_files = [Url ''https://x.org/t.csv''], origin_metadata = [[''etag'']]\<rparr>),
        (''b'', \<lparr>data_files = [], origin_metadata = []\<rparr>)])"
proof -
  let ?la = "\<lparr>data_files = [Url ''https://x.org/t.csv''], origin_metadata = [[''etag'']]\<rparr>"
  let ?lb = "\<lparr>data_files = [], origin_metadata = []\<rparr>"
  have d1: "distinct (map fst [(''a'', ?la), (''b'', ?lb)])" by simp
  have d2: "distinct (map fst [(''b'', ?lb), (''a'', ?la)])" by simp
  have s: "set [(''a'', ?la), (''b'', ?lb)] = set [(''b'', ?lb), (''a'', ?la)]" by auto
  from C7_reduce_key_order [OF d1 d2 s, of length] show ?thesis by simp
qed

section \<open>The normalised patterns\<close>

text \<open>
  Claim C8. On a string, a list and a dictionary \<open>sanitize_patterns\<close> raises nothing
  and returns a dictionary from split names to lists: a string becomes the one pattern
  of the split "train", a list is given to the split "train" as it is, and a dictionary
  keeps its keys, printed by \<open>str\<close>, with each value that is a list kept and each other
  value put into a list of one element (the last value wins when two keys are printed
  alike; the items keep their order when no two are).
\<close>

theorem C8_sanitize_patterns_total:
  "sanitize_patterns str (Str_arg s) = Inr [(''train'', Patterns [s])]
   \<and> sanitize_patterns str (List_arg l) = Inr [(''train'', l)]
   \<and> (\<exists>d. sanitize_patterns str (Dict_arg items) = Inr d
         \<and> distinct (map fst d)
         \<and> set (map fst d) = (\<lambda>(key, v). str key) ` set items
         \<and> map_of d = map_of (rev (map (\<lambda>(key, v). (str key, case v of A_list l \<Rightarrow> l
                                                                    | Not_a_list x \<Rightarrow> Patterns [x])) items))
         \<and> (distinct (map (\<lambda>(key, v). str key) items) \<longrightarrow>
              d = map (\<lambda>(key, v). (str key, case v of A_list l \<Rightarrow> l | Not_a_list x \<Rightarrow> Patterns [x])) items))"
proof -
  let ?items = "map (\<lambda>(key, v). (str key, as_list v)) items"
  have w: "(\<lambda>(key, v). (str key, case v of A_list l \<Rightarrow> l | Not_a_list x \<Rightarrow> Patterns [x]))
           = (\<lambda>(key, v). (str key, as_list v))"
    by (simp add: as_list_def fun_eq_iff)
  have k: "map fst ?items = map (\<lambda>(key, v). str key) items"
    by (simp add: comp_def case_prod_unfold)
  have "sanitize_patterns str (Dict_arg items) = Inr (dict_of_items ?items)"
    by (simp add: sanitize_patterns_def)
  moreover have "distinct (map fst (dict_of_items ?items))"
    by (simp add: dict_of_items_keys)
  moreover have "set (map fst (dict_of_items ?items)) = (\<lambda>(key, v). str key) ` set items"
    using dict_of_items_keys [of ?items] k by (metis (no_types, lifting) set_map)
  moreover have "map_of (dict_of_items ?items) = map_of (rev ?items)"
    by (rule dict_of_items_map_of)
  moreover have "distinct (map (\<lambda>(key, v). str key) items) \<longrightarrow> dict_of_items ?items = ?items"
  proof
    assume "distinct (map (\<lambda>(key, v). str key) items)"
    then have "distinct (map fst ?items)" by (simp only: k)
    then show "dict_of_items ?items = ?items" by (rule dict_of_items_distinct)
  qed
  ultimately show ?thesis
    unfolding w by (simp add: sanitize_patterns_def DEFAULT_SPLIT_def)
qed

text \<open>A dictionary with a single pattern for one split and a list for the other.\<close>

theorem C8_sanitize_patterns_total_witness:
  "sanitize_patterns (\<lambda>key. key)
      (Dict_arg [(''train'', Not_a_list ''a.csv''), (''test'', A_list (Patterns [''b.csv'', ''c.csv'']))])
     = Inr [(''train'', Patterns [''a.csv'']), (''test'', Patterns [''b.csv'', ''c.csv''])]"
proof -
  have d: "distinct (map (\<lambda>(key, v). key)
             [(''train'', Not_a_list ''a.csv''), (''test'', A_list (Patterns [''b.csv'', ''c.csv'']))])"
    by simp
  from C8_sanitize_patterns_total [of "\<lambda>key. key" "''x''" "Patterns []"
      "[(''train'', Not_a_list ''a.csv''), (''test'', A_list (Patterns [''b.csv'', ''c.csv'']))]"] d
  show ?thesis by auto
qed

section \<open>The extension filter\<close>

lemma has_allowed_extension_iff:
  "has_allowed_extension exts filepath \<longleftrightarrow> (\<exists>suffix\<in>set (suffixes filepath). drop 1 suffix \<in> set exts)"
  by (simp add: has_allowed_extension_def list_ex_iff)

text \<open>
  Claim C2, as amended. With a list of allowed extensions, the resolver of one pattern
  (in a local directory and in a dataset repository) keeps exactly the matched files that
  have at least one suffix, any of the suffixes of the name and not only the last, which
  without its dot is in the list; the files kept are returned sorted. When at least one
  file is kept the files left out raise nothing (when none is kept, the pattern decides,
  as in claim C4). The files \<open>a.csv\<close>, \<open>b.json\<close> and \<open>c.txt\<close> with the extensions
  csv and json give \<open>a.csv\<close> and \<open>b.json\<close>.
\<close>

theorem C2_extension_filter:
  "(resolve_single_pattern_locally e base_path pattern (Some exts) = Inr out \<longrightarrow>
      sorted out
      \<and> mset out = filter_mset (\<lambda>filepath. \<exists>suffix\<in>set (suffixes filepath). drop 1 suffix \<in> set exts)
                     (mset (matched_paths_locally e base_path pattern)))
   \<and> ((\<exists>filepath\<in>set (matched_paths_locally e base_path pattern).
          \<exists>suffix\<in>set (suffixes filepath). drop 1 suffix \<in> set exts) \<longrightarrow>
       (\<exists>out. resolve_single_pattern_locally e base_path pattern (Some exts) = Inr out))
   \<and> (matched_paths_in_repository (all_data_files info) pattern = Inr matched_paths
        \<and> resolve_single_pattern_in_dataset_repository info pattern (Some exts) = Inr rel_paths \<longrightarrow>
      sorted rel_paths
      \<and> mset rel_paths = filter_mset (\<lambda>filepath. \<exists>suffix\<in>set (suffixes filepath). drop 1 suffix \<in> set exts)
                           (mset matched_paths))
   \<and> (matched_paths_in_repository (all_data_files info) pattern = Inr matched_paths
        \<and> (\<exists>filepath\<in>set matched_paths. \<exists>suffix\<in>set (suffixes filepath). drop 1 suffix \<in> set exts) \<longrightarrow>
       (\<exists>rel_paths. resolve_single_pattern_in_dataset_repository info pattern (Some exts) = Inr rel_paths))
   \<and> resolve_single_pattern_locally (listing_env [''/ds/a.csv'', ''/ds/b.json'', ''/ds/c.txt''])
        ''/ds'' ''*'' (Some [''csv'', ''json''])
       = Inr [[''/'', ''ds'', ''a.csv''], [''/'', ''ds'', ''b.json'']]
   \<and> resolve_single_pattern_in_dataset_repository (repo_of [''a.csv'', ''b.json'', ''c.txt''])
        ''*'' (Some [''csv'', ''json''])
       = Inr [[''a.csv''], [''b.json'']]"
proof (intro conjI impI)
  assume "resolve_single_pattern_locally e base_path pattern (Some exts) = Inr out"
  then have "out = sort (filter (has_allowed_extension exts) (matched_paths_locally e base_path pattern))"
    by (auto simp: resolve_single_pattern_locally_def filter_extensions_def Let_def split: if_splits)
  then show "sorted out"
    and "mset out = filter_mset (\<lambda>filepath. \<exists>suffix\<in>set (suffixes filepath). drop 1 suffix \<in> set exts)
                     (mset (matched_paths_locally e base_path pattern))"
    by (simp_all add: has_allowed_extension_iff)
next
  assume "\<exists>filepath\<in>set (matched_paths_locally e base_path pattern).
          \<exists>suffix\<in>set (suffixes filepath). drop 1 suffix \<in> set exts"
  then have "filter (has_allowed_extension exts) (matched_paths_locally e base_path pattern) \<noteq> []"
    by (auto simp: filter_empty_conv has_allowed_extension_iff)
  then show "\<exists>out. resolve_single_pattern_locally e base_path pattern (Some exts) = Inr out"
    by (simp add: resolve_single_pattern_locally_def filter_extensions_def)
next
  assume a: "matched_paths_in_repository (all_data_files info) pattern = Inr matched_paths
        \<and> resolve_single_pattern_in_dataset_repository info pattern (Some exts) = Inr rel_paths"
  then have "rel_paths = sort (filter (has_allowed_extension exts) matched_paths)"
    by (auto simp: resolve_single_pattern_in_dataset_repository_def filter_extensions_def Let_def
          split: if_splits)
  then show "sorted rel_paths"
    and "mset rel_paths = filter_mset (\<lambda>filepath. \<exists>suffix\<in>set (suffixes filepath). drop 1 suffix \<in> set exts)
                           (mset matched_paths)"
    by (simp_all add: has_allowed_extension_iff)
next
  assume a: "matched_paths_in_repository (all_data_files info) pattern = Inr matched_paths
        \<and> (\<exists>filepath\<in>set matched_paths. \<exists>suffix\<in>set (suffixes filepath). drop 1 suffix \<in> set exts)"
  then have "filter (has_allowed_extension exts) matched_paths \<noteq> []"
    by (auto simp: filter_empty_conv has_allowed_extension_iff)
  with a show "\<exists>rel_paths. resolve_single_pattern_in_dataset_repository info pattern (Some exts) = Inr rel_paths"
    by (simp add: resolve_single_pattern_in_dataset_repository_def filter_extensions_def)
next
  show "resolve_single_pattern_locally (listing_env [''/ds/a.csv'', ''/ds/b.json'', ''/ds/c.txt''])
        ''/ds'' ''*'' (Some [''csv'', ''json''])
       = Inr [[''/'', ''ds'', ''a.csv''], [''/'', ''ds'', ''b.json'']]"
    by code_simp
next
  show "resolve_single_pattern_in_dataset_repository (repo_of [''a.csv'', ''b.json'', ''c.txt''])
        ''*'' (Some [''csv'', ''json''])
       = Inr [[''a.csv''], [''b.json'']]"
    by code_simp
qed

text \<open>The files \<open>a.csv\<close>, \<open>d.csv.gz\<close> and \<open>c.txt\<close> with the extension csv.\<close>

theorem C2_extension_filter_witness:
  "(\<exists>out. resolve_single_pattern_locally (listing_env [''/ds/a.csv'', ''/ds/d.csv.gz'', ''/ds/c.txt''])
             ''/ds'' ''*'' (Some [''csv'']) = Inr out)
   \<and> mset [[''a.csv''], [''d.csv.gz'']]
       = filter_mset (\<lambda>filepath. \<exists>suffix\<in>set (suffixes filepath). drop 1 suffix \<in> set [''csv''])
           (mset [[''a.csv''], [''d.csv.gz''], [''c.txt'']])"
proof -
  let ?e = "listing_env [''/ds/a.csv'', ''/ds/d.csv.gz'', ''/ds/c.txt'']"
  have "list_ex (has_allowed_extension [''csv'']) (matched_paths_locally ?e ''/ds'' ''*'')"
    by code_simp
  then have l: "\<exists>filepath\<in>set (matched_paths_locally ?e ''/ds'' ''*'').
          \<exists>suffix\<in>set (suffixes filepath). drop 1 suffix \<in> set [''csv'']"
    by (simp add: list_ex_iff has_allowed_extension_iff)
  have r: "matched_paths_in_repository (all_data_files (repo_of [''a.csv'', ''d.csv.gz'', ''c.txt''])) ''*''
             = Inr [[''a.csv''], [''d.csv.gz''], [''c.txt'']]
           \<and> resolve_single_pattern_in_dataset_repository (repo_of [''a.csv'', ''d.csv.gz'', ''c.txt''])
               ''*'' (Some [''csv'']) = Inr [[''a.csv''], [''d.csv.gz'']]"
    by code_simp
  from C2_extension_filter [where e = ?e and base_path = "''/ds''" and pattern = "''*''"
      and exts = "[''csv'']" and info = "repo_of [''a.csv'', ''d.csv.gz'', ''c.txt'']"
      and matched_paths = "[[''a.csv''], [''d.csv.gz''], [''c.txt'']]"
      and rel_paths = "[[''a.csv''], [''d.csv.gz'']]"] l r
  show ?thesis by blast
qed

text \<open>
  Claim C2 as stated fails: \<open>d.csv.gz\<close> is kept for the extension csv, though its final
  suffix is \<open>.gz\<close>; the filter on the final suffix would keep \<open>a.csv\<close> only.
\<close>

theorem C2_final_suffix_counterexample:
  "resolve_single_pattern_in_dataset_repository (repo_of [''a.csv'', ''d.csv.gz'', ''c.txt''])
      ''*'' (Some [''csv'']) = Inr [[''a.csv''], [''d.csv.gz'']]
   \<and> matched_paths_in_repository (all_data_files (repo_of [''a.csv'', ''d.csv.gz'', ''c.txt''])) ''*''
      = Inr [[''a.csv''], [''d.csv.gz''], [''c.txt'']]
   \<and> final_suffix_spec [''d.csv.gz''] = ''.gz''
   \<and> filter (final_suffix_allowed_spec [''csv'']) [[''a.csv''], [''d.csv.gz''], [''c.txt'']] = [[''a.csv'']]
   \<and> resolve_single_pattern_locally (listing_env [''/ds/a.csv'', ''/ds/d.csv.gz'', ''/ds/c.txt''])
        ''/ds'' ''*'' (Some [''csv''])
      = Inr [[''/'', ''ds'', ''a.csv''], [''/'', ''ds'', ''d.csv.gz'']]
   \<and> final_suffix_spec [''/'', ''ds'', ''d.csv.gz''] = ''.gz''"
  by code_simp

section \<open>The fingerprints of a list of data files\<close>

lemma thread_map_length:
  "thread_map f xs = Inr ys \<Longrightarrow> length ys = length xs"
  by (induction xs arbitrary: ys) (auto split: sum.splits)

lemma from_local_or_remote_lengths:
  "from_local_or_remote e patterns base_path allowed_extensions use_auth_token = Inr l
     \<Longrightarrow> length (origin_metadata l) = length (data_files l)"
  by (auto simp: from_local_or_remote_def get_origin_metadata_locally_or_by_urls_def Let_def
        dest: thread_map_length split: sum.splits)

lemma from_hf_repo_metadata:
  "from_hf_repo hf_hub_url patterns info allowed_extensions = Inr l
     \<Longrightarrow> origin_metadata l = replicate (length patterns) [repo_id info, sha info]"
  by (auto simp: from_hf_repo_def map_replicate_const split: sum.splits)

text \<open>
  Claim C1. A list of data files is to have as many fingerprints as files.
  \<open>from_local_or_remote\<close> does so (\<open>from_local_or_remote_lengths\<close>), but
  \<open>from_hf_repo\<close> makes one fingerprint for each pattern
  (\<open>from_hf_repo_metadata\<close>): for the one pattern \<open>*.csv\<close> and a repository with
  the files \<open>a.csv\<close> and \<open>b.csv\<close> it returns two files and one fingerprint.
\<close>

theorem C1_from_hf_repo_one_fingerprint_per_pattern:
  "from_hf_repo hf_hub_url_spec [''*.csv''] (repo_of [''a.csv'', ''b.csv'']) None
     = Inr \<lparr>data_files = [Url ''https://huggingface.co/datasets/user/demo/resolve/0ca0d9f/a.csv'',
                           Url ''https://huggingface.co/datasets/user/demo/resolve/0ca0d9f/b.csv''],
            origin_metadata = [[''user/demo'', ''0ca0d9f'']]\<rparr>
   \<and> length [Url ''https://huggingface.co/datasets/user/demo/resolve/0ca0d9f/a.csv'',
              Url ''https://huggingface.co/datasets/user/demo/resolve/0ca0d9f/b.csv'']
       \<noteq> length [[''user/demo'', ''0ca0d9f'']]"
  by code_simp

end
